theory Spec2Isabelle
  imports Complex_Main "HOL-Library.Log_Nat" "HOL-Library.AList" "HOL-Library.Sublist"
begin

section \<open>Python floats\<close>

text \<open>
  The notebook computes with Python floats (IEEE 754 binary64).  Every finite double is a
  rational number, and comparing two doubles compares these rationals, so a float is
  modelled as a \<^typ>\<open>rat\<close>.  An arithmetic operation returns the exact result rounded to
  the nearest double, ties to even (\<open>fl\<close>).  Only the normal range is modelled: there is
  no overflow to infinity and no subnormal number.  The floats the notebook computes with
  (the grid, the camera, the lights, the colours) are far inside that range; the random
  draws are compared, never computed with.
\<close>

definition ilog2 :: "rat \<Rightarrow> int" where
  \<comment> \<open>for \<open>x > 0\<close>: the exponent \<open>e\<close> with \<open>2^e \<le> x < 2^(e+1)\<close>\<close>
  "ilog2 x = (let (p, q) = quotient_of x; e = bitlen p - bitlen q
              in if x < 2 powi e then e - 1 else e)"

definition round_half_even :: "rat \<Rightarrow> int" where
  "round_half_even q =
     (let f = \<lfloor>q\<rfloor>; r = q - of_int f
      in if r < 1 / 2 then f else if 1 / 2 < r then f + 1
         else if even f then f else f + 1)"

definition fl :: "rat \<Rightarrow> rat" where
  \<comment> \<open>round to 53 significant bits\<close>
  "fl x = (if x = 0 then 0 else
     let u = 2 powi (ilog2 \<bar>x\<bar> - 52)
     in sgn x * of_int (round_half_even (\<bar>x\<bar> / u)) * u)"

definition lit :: "rat \<Rightarrow> rat" where
  \<comment> \<open>a decimal literal such as \<open>0.7\<close> denotes the double nearest to it\<close>
  "lit d = fl d"

definition fmul :: "rat \<Rightarrow> rat \<Rightarrow> rat" where
  "fmul x y = fl (x * y)"

definition fadd :: "rat \<Rightarrow> rat \<Rightarrow> rat" where
  "fadd x y = fl (x + y)"

definition fdiv :: "rat \<Rightarrow> rat \<Rightarrow> rat" where
  "fdiv x y = fl (x / y)"

section \<open>The numpy operations the notebook uses\<close>

text \<open>
  A two-dimensional array is the list of its rows.  \<open>np.mgrid[b:e:st]\<close> with a real step
  has \<open>int(math.ceil((e - b) / (st * 1.0)))\<close> points along that axis, the point of index
  \<open>k\<close> being \<open>k * st + b\<close>; the starts and stops of the notebook are Python ints.
\<close>

definition mgrid_size :: "int \<Rightarrow> int \<Rightarrow> rat \<Rightarrow> nat" where
  "mgrid_size start stop step = nat \<lceil>fdiv (of_int (stop - start)) (fmul step 1)\<rceil>"

definition mgrid_axis :: "int \<Rightarrow> int \<Rightarrow> rat \<Rightarrow> rat list" where
  "mgrid_axis start stop step =
     map (\<lambda>k. fadd (fmul (of_nat k) step) (of_int start)) [0..<mgrid_size start stop step]"

definition mgrid3_flat :: "int \<times> int \<times> rat \<Rightarrow> int \<times> int \<times> rat \<Rightarrow> int \<times> int \<times> rat \<Rightarrow> rat list list" where
  \<comment> \<open>\<open>np.mgrid[s0, s1, s2].reshape(3,-1)\<close>: the three coordinate arrays, each flattened in
      C order (last index fastest)\<close>
  "mgrid3_flat s0 s1 s2 =
     (case (s0, s1, s2) of ((b0, e0, st0), (b1, e1, st1), (b2, e2, st2)) \<Rightarrow>
        let idx = List.product (mgrid_axis b0 e0 st0)
                    (List.product (mgrid_axis b1 e1 st1) (mgrid_axis b2 e2 st2))
        in [map (\<lambda>(x, y, z). x) idx, map (\<lambda>(x, y, z). y) idx, map (\<lambda>(x, y, z). z) idx])"

definition col :: "nat \<Rightarrow> rat list list \<Rightarrow> rat list" where
  \<comment> \<open>\<open>A[:,j]\<close>\<close>
  "col j A = map (\<lambda>row. row ! j) A"

definition mask_index :: "'a list \<Rightarrow> bool list \<Rightarrow> 'a list" where
  \<comment> \<open>\<open>A[m]\<close> for a boolean array \<open>m\<close> as long as \<open>A\<close>\<close>
  "mask_index A m = map fst (filter snd (zip A m))"

definition add_row :: "rat list list \<Rightarrow> rat list \<Rightarrow> rat list list" where
  \<comment> \<open>\<open>A + v\<close>, the row \<open>v\<close> broadcast over the rows of \<open>A\<close>\<close>
  "add_row A v = map (\<lambda>row. map2 fadd row v) A"

section \<open>Cell 2: the data\<close>

text \<open>
  The notebook's globals \<open>n\<close>, \<open>a\<close> and \<open>s\<close> are \<open>py_n\<close>, \<open>py_a\<close> and \<open>py_s\<close> here.
  \<open>np.random.uniform(0, 1, k)\<close> returns \<open>k\<close> draws; the draws are the argument
  \<open>u\<close> (\<open>u i\<close> is the \<open>i\<close>-th draw).
\<close>

definition py_n :: int where
  "py_n = 6"

definition py_a :: int where
  "py_a = 8"

definition py_s :: rat where
  "py_s = fdiv (of_int py_a) (of_int py_n)"

definition xyz :: "rat list list" where
  "xyz = transpose (mgrid3_flat (0, py_a, py_s) (0, py_a, py_s) (0, py_a, py_s))"

definition rnd :: "(nat \<Rightarrow> rat) \<Rightarrow> rat list" where
  "rnd u = map u [0..<length xyz]"

definition on_wall :: "bool list" where
  \<comment> \<open>\<open>(xyz[:,0] == 0) | (xyz[:,1] == 0) | (xyz[:,2] == 0)\<close>\<close>
  "on_wall = map2 (\<or>) (map2 (\<or>) (map (\<lambda>x. x = 0) (col 0 xyz)) (map (\<lambda>x. x = 0) (col 1 xyz)))
                      (map (\<lambda>x. x = 0) (col 2 xyz))"

definition inside :: "bool list" where
  \<comment> \<open>\<open>(xyz[:,0] > 0) & (xyz[:,1] > 0) & (xyz[:,2] > 0)\<close>\<close>
  "inside = map2 (\<and>) (map2 (\<and>) (map (\<lambda>x. 0 < x) (col 0 xyz)) (map (\<lambda>x. 0 < x) (col 1 xyz)))
                     (map (\<lambda>x. 0 < x) (col 2 xyz))"

definition xyz_c_diffuse :: "(nat \<Rightarrow> rat) \<Rightarrow> rat list list" where
  "xyz_c_diffuse u = mask_index xyz (map2 (\<and>) on_wall (map (\<lambda>r. r < lit (7 / 10)) (rnd u)))"

definition xyz_c_mirror :: "(nat \<Rightarrow> rat) \<Rightarrow> rat list list" where
  "xyz_c_mirror u = mask_index xyz (map2 (\<and>) on_wall (map (\<lambda>r. lit (7 / 10) \<le> r) (rnd u)))"

definition xyz_p_glass :: "(nat \<Rightarrow> rat) \<Rightarrow> rat list list" where
  "xyz_p_glass u = mask_index xyz (map2 (\<and>) inside (map (\<lambda>r. r < lit (4 / 10)) (rnd u)))"

definition xyz_p_plastic :: "(nat \<Rightarrow> rat) \<Rightarrow> rat list list" where
  "xyz_p_plastic u = mask_index xyz (map2 (\<and>) inside (map (\<lambda>r. lit (9 / 10) < r) (rnd u)))"

section \<open>Values, calls and the outside world\<close>

text \<open>
  The renderer (\<open>TkOptiX\<close>), the predefined materials and \<open>map_to_colors\<close> belong to
  the imported library, which is not part of the notebook: they are parameters.  A call
  of a method of an external object is recorded with its target, its positional arguments
  and its keyword arguments.
\<close>

datatype pyval =
    PyNone
  | PyBool bool
  | PyInt int
  | PyFloat rat
  | PyStr string
  | PyList "pyval list"
  | PyArray1 "rat list"
  | PyArray2 "rat list list"
  | PyDict "(string \<times> pyval) list"

datatype error = KeyError string | TypeError | IndexError | LibraryError string

datatype obj = Obj nat

type_synonym kwargs = "(string \<times> pyval) list"

record call =
  target :: obj
  meth :: string
  args :: "pyval list"
  kwargs :: kwargs

record env =
  m_clear_glass :: pyval
  m_mirror :: pyval
  m_plastic :: pyval
  map_to_colors :: "rat list \<Rightarrow> string \<Rightarrow> error + rat list list"
  uniform :: "nat \<Rightarrow> rat"

record 'w world =
  construct :: "string \<Rightarrow> kwargs \<Rightarrow> 'w \<Rightarrow> (error \<times> 'w) + (obj \<times> 'w)"
  invoke :: "call \<Rightarrow> 'w \<Rightarrow> (error \<times> 'w) + (pyval \<times> 'w)"

text \<open>
  A statement of the notebook either calls a method of the renderer, prints, or raises
  while its arguments are evaluated (a subscript on a material, a failing
  \<open>map_to_colors\<close>) before any call is made.  \<open>Try body handler\<close> is Python's
  \<open>try: body except: handler\<close>: no cell of the notebook has one, and the form is there
  for that to be a statement about the cells.
\<close>

datatype stmt = Call call | Print pyval | Throws error | Try "stmt list" "stmt list"

datatype event = Created string kwargs obj | Called call

fun py_getitem :: "pyval \<Rightarrow> string \<Rightarrow> error + pyval" where
  "py_getitem (PyDict d) k = (case map_of d k of None \<Rightarrow> Inl (KeyError k) | Some v \<Rightarrow> Inr v)"
| "py_getitem (PyArray1 xs) k = Inl IndexError"
| "py_getitem (PyArray2 xs) k = Inl IndexError"
| "py_getitem v k = Inl TypeError"

fun py_setitem :: "pyval \<Rightarrow> string \<Rightarrow> pyval \<Rightarrow> error + pyval" where
  "py_setitem (PyDict d) k v = Inr (PyDict (AList.update k v d))"
| "py_setitem (PyArray1 xs) k v = Inl IndexError"
| "py_setitem (PyArray2 xs) k v = Inl IndexError"
| "py_setitem x k v = Inl TypeError"

section \<open>The code cells\<close>

text \<open>
  One definition for each code cell, named by the cell's execution count; \<open>optix\<close> is
  the object that \<open>TkOptiX(start_now=False)\<close>, the first statement of cell 3, returned.
  Cell 1 imports and cell 2 makes the data.
\<close>

definition optix_call :: "obj \<Rightarrow> string \<Rightarrow> pyval list \<Rightarrow> kwargs \<Rightarrow> stmt" where
  "optix_call optix m as kw = Call \<lparr>target = optix, meth = m, args = as, kwargs = kw\<rparr>"

definition cell_3 :: "obj \<Rightarrow> stmt list" where
  "cell_3 optix =
     [optix_call optix ''set_param'' []
        [(''min_accumulation_step'', PyInt 4), (''max_accumulation_frames'', PyInt 500),
         (''light_shading'', PyStr ''Hard'')]]"

definition cell_4 :: "obj \<Rightarrow> stmt list" where
  "cell_4 optix = [optix_call optix ''set_uint'' [PyStr ''path_seg_range'', PyInt 15, PyInt 30] []]"

definition cell_5 :: "env \<Rightarrow> obj \<Rightarrow> stmt list" where
  "cell_5 e optix =
     [optix_call optix ''setup_material'' [PyStr ''glass'', m_clear_glass e] [],
      optix_call optix ''setup_material'' [PyStr ''plastic'', m_plastic e] [],
      optix_call optix ''setup_material'' [PyStr ''mirror'', m_mirror e] []]"

definition half_cell :: "rat list" where
  \<comment> \<open>\<open>np.array([0.5*s, 0.5*s, 0.5*s])\<close>\<close>
  "half_cell = [fmul (lit (5 / 10)) py_s, fmul (lit (5 / 10)) py_s, fmul (lit (5 / 10)) py_s]"

definition cube_edges :: kwargs where
  \<comment> \<open>\<open>u=[0.9*s, 0, 0], v=[0, 0.9*s, 0], w=[0, 0, 0.9*s]\<close>\<close>
  "cube_edges =
     [(''u'', PyList [PyFloat (fmul (lit (9 / 10)) py_s), PyInt 0, PyInt 0]),
      (''v'', PyList [PyInt 0, PyFloat (fmul (lit (9 / 10)) py_s), PyInt 0]),
      (''w'', PyList [PyInt 0, PyInt 0, PyFloat (fmul (lit (9 / 10)) py_s)])]"

definition cell_6 :: "env \<Rightarrow> obj \<Rightarrow> stmt list" where
  "cell_6 e optix =
     [optix_call optix ''set_data'' [PyStr ''particles_g'']
        [(''pos'', PyArray2 (add_row (xyz_p_glass (uniform e)) half_cell)),
         (''r'', PyFloat (fmul (lit (4 / 10)) py_s)),
         (''geom'', PyStr ''ParticleSet''), (''mat'', PyStr ''glass''), (''c'', PyInt 10)],
      optix_call optix ''set_data'' [PyStr ''particles_p'']
        [(''pos'', PyArray2 (add_row (xyz_p_plastic (uniform e)) half_cell)),
         (''r'', PyFloat (fmul (lit (4 / 10)) py_s)),
         (''geom'', PyStr ''ParticleSet''), (''mat'', PyStr ''plastic''),
         (''c'', PyFloat (lit (95 / 100)))],
      optix_call optix ''set_data'' [PyStr ''cubes_d'']
        ((''pos'', PyArray2 (xyz_c_diffuse (uniform e))) # cube_edges @
         [(''geom'', PyStr ''Parallelepipeds''), (''mat'', PyStr ''diffuse''),
          (''c'', PyFloat (lit (95 / 100)))]),
      optix_call optix ''set_data'' [PyStr ''cubes_m'']
        ((''pos'', PyArray2 (xyz_c_mirror (uniform e))) # cube_edges @
         [(''geom'', PyStr ''Parallelepipeds''), (''mat'', PyStr ''mirror'')])]"

definition cell_7 :: "obj \<Rightarrow> stmt list" where
  "cell_7 optix =
     [optix_call optix ''setup_camera'' [PyStr ''cam1'']
        [(''eye'', PyList [PyInt 20, PyInt 10, PyInt 10]),
         (''target'', PyList [PyFloat (fmul (lit (5 / 10)) (of_int py_a)),
                             PyFloat (fmul (lit (4 / 10)) (of_int py_a)),
                             PyFloat (fmul (lit (5 / 10)) (of_int py_a))]),
         (''fov'', PyInt 35)],
      optix_call optix ''set_background'' [PyInt 0] [],
      optix_call optix ''set_ambient'' [PyInt 0] []]"

definition cell_8 :: "obj \<Rightarrow> stmt list" where
  "cell_8 optix =
     [optix_call optix ''set_float'' [PyStr ''tonemap_exposure'', PyFloat (lit (5 / 10))] [],
      optix_call optix ''set_float'' [PyStr ''tonemap_gamma'', PyFloat (lit (22 / 10))] [],
      optix_call optix ''add_postproc'' [PyStr ''Gamma''] []]"

definition cell_9 :: "obj \<Rightarrow> stmt list" where
  "cell_9 optix =
     [optix_call optix ''setup_light'' [PyStr ''light1'']
        [(''pos'', PyList [PyInt 5, PyInt 20, PyInt 5]),
         (''color'', PyArray1 (map (fmul 10) [lit 1, lit (97 / 100), lit (7 / 10)])),
         (''radius'', PyInt 4)],
      optix_call optix ''setup_light'' [PyStr ''light2'']
        [(''pos'', PyList [PyInt 7, PyInt 7, PyInt 20]),
         (''color'', PyArray1 (map (fmul 15) [lit (7 / 10), lit (85 / 100), lit 1])),
         (''radius'', PyInt 3)],
      optix_call optix ''setup_light'' [PyStr ''light3'']
        [(''pos'', PyList [PyInt 15, PyInt 2, PyInt 2]), (''color'', PyInt 15),
         (''radius'', PyInt 1)]]"

definition cell_10 :: "obj \<Rightarrow> stmt list" where
  "cell_10 optix = [optix_call optix ''start'' [] []]"

definition cell_11 :: "env \<Rightarrow> stmt list" where
  "cell_11 e = [Print (m_clear_glass e)]"

definition set_refraction_index :: "pyval \<Rightarrow> pyval \<Rightarrow> error + pyval" where
  \<comment> \<open>\<open>m["VarFloat3"]["refraction_index"] = v\<close>: the inner dictionary is changed in place,
      so \<open>m\<close> shows the change\<close>
  "set_refraction_index m v =
     (case py_getitem m ''VarFloat3'' of
        Inl err \<Rightarrow> Inl err
      | Inr inner \<Rightarrow>
          (case py_setitem inner ''refraction_index'' v of
             Inl err \<Rightarrow> Inl err
           | Inr inner' \<Rightarrow> py_setitem m ''VarFloat3'' inner'))"

definition cell_12 :: "env \<Rightarrow> obj \<Rightarrow> stmt list" where
  "cell_12 e optix =
     (case set_refraction_index (m_clear_glass e)
             (PyList [PyFloat (lit (14 / 10)), PyFloat (lit (144 / 100)), PyFloat (lit (15 / 10))]) of
        Inl err \<Rightarrow> [Throws err]
      | Inr m \<Rightarrow>
          [optix_call optix ''update_material'' [PyStr ''glass'', m] [(''refresh'', PyBool True)]])"

definition cell_13 :: "env \<Rightarrow> obj \<Rightarrow> stmt list" where
  "cell_13 e optix =
     [optix_call optix ''update_data'' [PyStr ''particles_g'']
        [(''c'', PyArray1 (map (fmul (lit (5 / 10))) (col 1 (xyz_p_glass (uniform e)))))]]"

definition cell_14 :: "env \<Rightarrow> obj \<Rightarrow> stmt list" where
  "cell_14 e optix =
     (case map_to_colors e (col 1 (xyz_p_glass (uniform e))) ''jet'' of
        Inl err \<Rightarrow> [Throws err]
      | Inr colors \<Rightarrow>
          [optix_call optix ''update_data'' [PyStr ''particles_g'']
             [(''c'', PyArray2 (map (map (fmul 10)) colors))]])"

definition cell_15 :: "obj \<Rightarrow> stmt list" where
  "cell_15 optix =
     [optix_call optix ''update_light'' [PyStr ''light1'']
        [(''color'', PyArray1 [lit (9 / 10), lit (7 / 10), 0]), (''radius'', PyInt 7)],
      optix_call optix ''update_light'' [PyStr ''light2'']
        [(''pos'', PyList [PyInt 15, PyInt 15, PyInt 15]),
         (''color'', PyArray1 (map (fmul 10) [lit (2 / 10), lit (5 / 10), lit 1])),
         (''radius'', PyInt 3)]]"

definition cell_16 :: "obj \<Rightarrow> stmt list" where
  "cell_16 optix =
     [optix_call optix ''set_uint'' [PyStr ''path_seg_range'', PyInt 2, PyInt 4]
        [(''refresh'', PyBool True)]]"

definition cell_17 :: "obj \<Rightarrow> stmt list" where
  "cell_17 optix = [optix_call optix ''close'' [] []]"

definition script :: "env \<Rightarrow> obj \<Rightarrow> stmt list" where
  \<comment> \<open>the statements after \<open>optix = TkOptiX(start_now=False)\<close>, in the order of the cells\<close>
  "script e optix =
     cell_3 optix @ cell_4 optix @ cell_5 e optix @ cell_6 e optix @ cell_7 optix @
     cell_8 optix @ cell_9 optix @ cell_10 optix @ cell_11 e @ cell_12 e optix @
     cell_13 e optix @ cell_14 e optix @ cell_15 optix @ cell_16 optix @ cell_17 optix"

section \<open>Running the notebook\<close>

text \<open>
  The statements run in order.  The value a call returns is dropped; an exception ends
  the run, and the run returns it with the state the world is in and the calls made so
  far (the one that raised included).  An exception of the body of a \<open>Try\<close> starts its
  handler instead, and the statements after the \<open>Try\<close> run when the handler ends.
\<close>

fun exec :: "(call \<Rightarrow> 'w \<Rightarrow> (error \<times> 'w) + (pyval \<times> 'w)) \<Rightarrow> stmt list \<Rightarrow> 'w
               \<Rightarrow> error option \<times> 'w \<times> call list" where
  "exec rdr [] w = (None, w, [])"
| "exec rdr (Call c # ss) w =
     (case rdr c w of
        Inl (err, w') \<Rightarrow> (Some err, w', [c])
      | Inr (v, w') \<Rightarrow> (case exec rdr ss w' of (r, w'', tr) \<Rightarrow> (r, w'', c # tr)))"
| "exec rdr (Print v # ss) w = exec rdr ss w"
| "exec rdr (Throws err # ss) w = (Some err, w, [])"
| "exec rdr (Try body handler # ss) w =
     (case exec rdr body w of
        (None, w1, tr1) \<Rightarrow> (case exec rdr ss w1 of (r, w2, tr2) \<Rightarrow> (r, w2, tr1 @ tr2))
      | (Some err, w1, tr1) \<Rightarrow>
          (case exec rdr handler w1 of
             (None, w2, tr2) \<Rightarrow>
               (case exec rdr ss w2 of (r, w3, tr3) \<Rightarrow> (r, w3, tr1 @ tr2 @ tr3))
           | (Some err', w2, tr2) \<Rightarrow> (Some err', w2, tr1 @ tr2)))"

definition run :: "'w world \<Rightarrow> env \<Rightarrow> 'w \<Rightarrow> error option \<times> 'w \<times> event list" where
  "run W e w =
     (case construct W ''TkOptiX'' [(''start_now'', PyBool False)] w of
        Inl (err, w') \<Rightarrow> (Some err, w', [])
      | Inr (optix, w') \<Rightarrow>
          (case exec (invoke W) (script e optix) w' of
             (r, w'', tr) \<Rightarrow>
               (r, w'', Created ''TkOptiX'' [(''start_now'', PyBool False)] optix # map Called tr)))"

definition raised :: "error option \<times> 'w \<times> event list \<Rightarrow> error option" where
  "raised res = fst res"

definition events :: "error option \<times> 'w \<times> event list \<Rightarrow> event list" where
  "events res = snd (snd res)"

fun calls_in :: "event list \<Rightarrow> call list" where
  "calls_in [] = []"
| "calls_in (Called c # evs) = c # calls_in evs"
| "calls_in (Created cls kw ob # evs) = calls_in evs"

fun created_in :: "event list \<Rightarrow> obj list" where
  "created_in [] = []"
| "created_in (Called c # evs) = created_in evs"
| "created_in (Created cls kw ob # evs) = ob # created_in evs"

definition issued :: "'w world \<Rightarrow> env \<Rightarrow> 'w \<Rightarrow> call list" where
  \<comment> \<open>the calls made on renderer objects in a run, in order\<close>
  "issued W e w = calls_in (events (run W e w))"

fun calls_of :: "stmt list \<Rightarrow> call list" where
  "calls_of [] = []"
| "calls_of (Call c # ss) = c # calls_of ss"
| "calls_of (Print v # ss) = calls_of ss"
| "calls_of (Throws err # ss) = calls_of ss"
| "calls_of (Try body handler # ss) = calls_of body @ calls_of handler @ calls_of ss"

fun handler_free :: "stmt list \<Rightarrow> bool" where
  \<comment> \<open>no \<open>try\<close> statement\<close>
  "handler_free [] = True"
| "handler_free (Try body handler # ss) = False"
| "handler_free (s # ss) = handler_free ss"

fun reached :: "stmt list \<Rightarrow> stmt list" where
  \<comment> \<open>the statements before the first that raises by itself\<close>
  "reached [] = []"
| "reached (Throws err # ss) = []"
| "reached (s # ss) = s # reached ss"


section \<open>The properties of call sequences\<close>

definition listed :: "string \<Rightarrow> bool" where
  \<comment> \<open>the calls the system overview lists, \<open>update_*\<close> being any name that starts
      with \<open>update_\<close>\<close>
  "listed m \<longleftrightarrow>
     m \<in> set [''set_param'', ''setup_material'', ''set_data'', ''setup_camera'', ''setup_light'',
              ''add_postproc'', ''start'', ''close''] \<or> prefix ''update_'' m"

definition other_setters :: "string list" where
  "other_setters = [''set_uint'', ''set_float'', ''set_background'', ''set_ambient'']"

definition config_methods :: "string list" where
  "config_methods =
     [''set_param'', ''set_uint'', ''setup_material'', ''set_data'', ''setup_camera'',
      ''set_background'', ''set_ambient'', ''set_float'', ''add_postproc'', ''setup_light'']"

definition update_methods :: "string list" where
  "update_methods = [''update_material'', ''update_data'', ''update_light'']"

definition before_start :: "call list \<Rightarrow> call list" where
  "before_start t = takeWhile (\<lambda>c. meth c \<noteq> ''start'') t"

definition from_start :: "call list \<Rightarrow> call list" where
  \<comment> \<open>the first \<open>start\<close> call and all that follows it\<close>
  "from_start t = dropWhile (\<lambda>c. meth c \<noteq> ''start'') t"

definition lifecycle_order :: "string list \<Rightarrow> call list \<Rightarrow> bool" where
  \<comment> \<open>one \<open>start\<close>; no call named in \<open>cfg\<close> from \<open>start\<close> on; no update before
      \<open>start\<close>; \<open>close\<close> last\<close>
  "lifecycle_order cfg t \<longleftrightarrow>
     length (filter (\<lambda>c. meth c = ''start'') t) = 1 \<and>
     list_all (\<lambda>c. meth c \<notin> set cfg) (from_start t) \<and>
     list_all (\<lambda>c. meth c \<notin> set update_methods) (before_start t) \<and>
     t \<noteq> [] \<and> meth (last t) = ''close''"

definition set_uint_calls :: "call list \<Rightarrow> (pyval list \<times> kwargs) list" where
  "set_uint_calls t = map (\<lambda>c. (args c, kwargs c)) (filter (\<lambda>c. meth c = ''set_uint'') t)"


fun number_value :: "pyval \<Rightarrow> rat option" where
  "number_value (PyInt k) = Some (of_int k)"
| "number_value (PyFloat x) = Some x"
| "number_value v = None"

definition is_number :: "pyval \<Rightarrow> bool" where
  "is_number v \<longleftrightarrow> number_value v \<noteq> None"

fun is_vector3 :: "pyval \<Rightarrow> bool" where
  \<comment> \<open>three numbers, as a list or as an array\<close>
  "is_vector3 (PyList vs) \<longleftrightarrow> length vs = 3 \<and> list_all is_number vs"
| "is_vector3 (PyArray1 xs) \<longleftrightarrow> length xs = 3"
| "is_vector3 v \<longleftrightarrow> False"

definition is_position :: "pyval \<Rightarrow> bool" where
  "is_position v \<longleftrightarrow> is_vector3 v"

definition is_color :: "pyval \<Rightarrow> bool" where
  \<comment> \<open>three components, or one number for a gray level\<close>
  "is_color v \<longleftrightarrow> is_vector3 v \<or> is_number v"

definition is_radius :: "pyval \<Rightarrow> bool" where
  \<comment> \<open>a positive number\<close>
  "is_radius v \<longleftrightarrow> (case number_value v of None \<Rightarrow> False | Some x \<Rightarrow> 0 < x)"

definition kwarg :: "call \<Rightarrow> string \<Rightarrow> pyval option" where
  "kwarg c k = map_of (kwargs c) k"


section \<open>Sample inputs\<close>

text \<open>
  A world whose state counts the calls it has served, a world whose \<open>set_uint\<close> raises,
  and an environment: the clear glass material as cell 11 printed it, empty dictionaries
  for the two other materials, a gray colour map and the draws \<open>i / 216\<close>.
\<close>

definition quiet_world :: "nat world" where
  "quiet_world =
     \<lparr>construct = (\<lambda>cls kw w. Inr (Obj 0, w)), invoke = (\<lambda>c w. Inr (PyNone, Suc w))\<rparr>"

definition broken_world :: "nat world" where
  "broken_world =
     \<lparr>construct = (\<lambda>cls kw w. Inr (Obj 0, w)),
      invoke = (\<lambda>c w. if meth c = ''set_uint'' then Inl (LibraryError ''set_uint'', w)
                        else Inr (PyNone, Suc w))\<rparr>"

definition printed_clear_glass :: pyval where
  "printed_clear_glass =
     PyDict
      [(''RadianceProgram'', PyStr ''materials7.ptx::__closesthit__radiance__glass''),
       (''OcclusionProgram'', PyStr ''materials7.ptx::__closesthit__occlusion''),
       (''VarUInt'', PyDict [(''flags'', PyInt 12)]),
       (''VarFloat'',
          PyDict [(''radiation_length'', PyFloat 0), (''vol_scattering'', PyFloat 1),
                  (''light_emission'', PyFloat 0)]),
       (''VarFloat3'',
          PyDict [(''refraction_index'',
                     PyList [PyFloat (lit (14 / 10)), PyFloat (lit (14 / 10)), PyFloat (lit (14 / 10))]),
                  (''surface_albedo'', PyList [PyFloat 1, PyFloat 1, PyFloat 1])])]"

definition sample_env :: env where
  "sample_env =
     \<lparr>m_clear_glass = printed_clear_glass, m_mirror = PyDict [], m_plastic = PyDict [],
      map_to_colors = (\<lambda>ys name. Inr (map (\<lambda>y. [y, y, y]) ys)),
      uniform = (\<lambda>i. of_nat i / 216)\<rparr>"




section \<open>Runs and the calls they make\<close>

text \<open>
  No cell has a \<open>try\<close> statement.  The calls of a run are then an initial part of the calls
  of the script, all of them when nothing raises.
\<close>

lemmas cell_defs = cell_3_def cell_4_def cell_5_def cell_6_def cell_7_def cell_8_def cell_9_def
  cell_10_def cell_11_def cell_12_def cell_13_def cell_14_def cell_15_def cell_16_def cell_17_def

lemmas cell_defs' = cell_3_def cell_4_def cell_5_def cell_6_def cell_7_def cell_8_def cell_9_def
  cell_10_def cell_11_def cell_13_def cell_15_def cell_16_def cell_17_def

lemma handler_free_append: "handler_free (xs @ ys) \<longleftrightarrow> handler_free xs \<and> handler_free ys"
  by (induction xs rule: handler_free.induct) simp_all

lemma script_handler_free: "handler_free (script e optix)"
  by (simp add: script_def cell_defs optix_call_def handler_free_append split: sum.splits)

lemma calls_of_append: "calls_of (xs @ ys) = calls_of xs @ calls_of ys"
  by (induction xs rule: calls_of.induct) simp_all

lemma exec_trace_reached:
  "handler_free ss \<Longrightarrow> exec rdr ss w = (r, w1, tr) \<Longrightarrow> \<exists>k. tr = take k (calls_of (reached ss))"
proof (induction ss arbitrary: w r w1 tr)
  case Nil
  then show ?case by simp
next
  case (Cons st ss)
  show ?case
  proof (cases st)
    case (Call c)
    with Cons.prems have hf: "handler_free ss" by simp
    show ?thesis
    proof (cases "rdr c w")
      case (Inl p)
      obtain err w' where p: "p = (err, w')" by (cases p)
      have "tr = take 1 (calls_of (reached (st # ss)))"
        using Cons.prems Call Inl p by simp
      then show ?thesis by blast
    next
      case (Inr p)
      obtain v w' where p: "p = (v, w')" by (cases p)
      obtain r' w2 tr' where ex: "exec rdr ss w' = (r', w2, tr')" by (cases "exec rdr ss w'")
      from Cons.IH [OF hf ex] obtain k where k: "tr' = take k (calls_of (reached ss))" by blast
      have "tr = take (Suc k) (calls_of (reached (st # ss)))"
        using Cons.prems Call Inr p ex k by simp
      then show ?thesis by blast
    qed
  next
    case (Print v)
    with Cons show ?thesis by simp
  next
    case (Throws err)
    have "tr = take 0 (calls_of (reached (st # ss)))"
      using Cons.prems Throws by simp
    then show ?thesis by blast
  next
    case (Try body handler)
    with Cons.prems show ?thesis by simp
  qed
qed

lemma reached_calls: "handler_free ss \<Longrightarrow> \<exists>j. calls_of (reached ss) = take j (calls_of ss)"
proof (induction ss)
  case Nil
  show ?case by simp
next
  case (Cons st ss)
  show ?case
  proof (cases st)
    case (Call c)
    with Cons obtain j where "calls_of (reached ss) = take j (calls_of ss)" by auto
    with Call have "calls_of (reached (st # ss)) = take (Suc j) (calls_of (st # ss))" by simp
    then show ?thesis by blast
  next
    case (Print v)
    with Cons show ?thesis by simp
  next
    case (Throws err)
    then have "calls_of (reached (st # ss)) = take 0 (calls_of (st # ss))" by simp
    then show ?thesis by blast
  next
    case (Try body handler)
    with Cons.prems show ?thesis by simp
  qed
qed

lemma exec_trace_take:
  assumes "handler_free ss" "exec rdr ss w = (r, w1, tr)"
  shows "\<exists>k. tr = take k (calls_of ss)"
proof -
  from exec_trace_reached [OF assms] obtain k where "tr = take k (calls_of (reached ss))" ..
  moreover from reached_calls [OF assms(1)] obtain j where
    "calls_of (reached ss) = take j (calls_of ss)" ..
  ultimately have "tr = take (min k j) (calls_of ss)" by simp
  then show ?thesis ..
qed

lemma exec_complete:
  "handler_free ss \<Longrightarrow> exec rdr ss w = (None, w1, tr) \<Longrightarrow>
     tr = calls_of ss \<and> (\<forall>err. Throws err \<notin> set ss)"
proof (induction ss arbitrary: w w1 tr)
  case Nil
  then show ?case by simp
next
  case (Cons st ss)
  show ?case
  proof (cases st)
    case (Call c)
    with Cons.prems have hf: "handler_free ss" by simp
    show ?thesis
    proof (cases "rdr c w")
      case (Inl p)
      with Cons.prems Call show ?thesis by (cases p) simp
    next
      case (Inr p)
      obtain v w' where p: "p = (v, w')" by (cases p)
      obtain r' w2 tr' where ex: "exec rdr ss w' = (r', w2, tr')" by (cases "exec rdr ss w'")
      have "r' = None" and tr: "tr = c # tr'"
        using Cons.prems Call Inr p ex by simp_all
      with ex have "exec rdr ss w' = (None, w2, tr')" by simp
      from Cons.IH [OF hf this] tr Call show ?thesis by simp
    qed
  next
    case (Print v)
    with Cons show ?thesis by simp
  next
    case (Throws err)
    with Cons.prems show ?thesis by simp
  next
    case (Try body handler)
    with Cons.prems show ?thesis by simp
  qed
qed

lemma calls_in_map_Called: "calls_in (map Called cs) = cs"
  by (induction cs) simp_all

lemma created_in_map_Called: "created_in (map Called cs) = []"
  by (induction cs) simp_all

lemma run_cases:
  "(\<exists>err w'. construct W ''TkOptiX'' [(''start_now'', PyBool False)] w = Inl (err, w') \<and>
        run W e w = (Some err, w', [])) \<or>
   (\<exists>optix w' k. construct W ''TkOptiX'' [(''start_now'', PyBool False)] w = Inr (optix, w') \<and>
        events (run W e w) =
          Created ''TkOptiX'' [(''start_now'', PyBool False)] optix #
            map Called (take k (calls_of (reached (script e optix)))))"
proof (cases "construct W ''TkOptiX'' [(''start_now'', PyBool False)] w")
  case (Inl p)
  then show ?thesis by (cases p) (simp add: run_def)
next
  case (Inr p)
  obtain optix w' where p: "p = (optix, w')" by (cases p)
  obtain r w2 tr where ex: "exec (invoke W) (script e optix) w' = (r, w2, tr)"
    by (cases "exec (invoke W) (script e optix) w'")
  from exec_trace_reached [OF script_handler_free ex] obtain k where
    "tr = take k (calls_of (reached (script e optix)))" by blast
  then have "events (run W e w) =
          Created ''TkOptiX'' [(''start_now'', PyBool False)] optix #
            map Called (take k (calls_of (reached (script e optix))))"
    using Inr p ex by (simp add: run_def events_def)
  with Inr p show ?thesis by blast
qed

lemma issued_reached: "\<exists>optix k. issued W e w = take k (calls_of (reached (script e optix)))"
proof -
  from run_cases [of W w e] show ?thesis
  proof
    assume "\<exists>err w'. construct W ''TkOptiX'' [(''start_now'', PyBool False)] w = Inl (err, w') \<and>
        run W e w = (Some err, w', [])"
    then have "issued W e w = take 0 (calls_of (reached (script e (Obj 0))))"
      by (auto simp: issued_def events_def)
    then show ?thesis by blast
  next
    assume "\<exists>optix w' k. construct W ''TkOptiX'' [(''start_now'', PyBool False)] w = Inr (optix, w') \<and>
        events (run W e w) =
          Created ''TkOptiX'' [(''start_now'', PyBool False)] optix #
            map Called (take k (calls_of (reached (script e optix))))"
    then obtain optix k where "issued W e w = take k (calls_of (reached (script e optix)))"
      by (auto simp: issued_def calls_in_map_Called)
    then show ?thesis by blast
  qed
qed

lemma issued_take: "\<exists>optix k. issued W e w = take k (calls_of (script e optix))"
proof -
  from issued_reached [of W e w] obtain optix k where
    "issued W e w = take k (calls_of (reached (script e optix)))" by blast
  moreover from reached_calls [OF script_handler_free, of e optix] obtain j where
    "calls_of (reached (script e optix)) = take j (calls_of (script e optix))" ..
  ultimately have "issued W e w = take (min k j) (calls_of (script e optix))" by simp
  then show ?thesis by blast
qed

lemma issued_subset: "c \<in> set (issued W e w) \<Longrightarrow> \<exists>optix. c \<in> set (calls_of (script e optix))"
proof -
  assume c: "c \<in> set (issued W e w)"
  from issued_take [of W e w] obtain optix k where "issued W e w = take k (calls_of (script e optix))"
    by blast
  with c have "c \<in> set (calls_of (script e optix))" by (auto dest: in_set_takeD)
  then show ?thesis by blast
qed

lemma complete_run:
  assumes "raised (run W e w) = None"
  shows "\<exists>optix. issued W e w = calls_of (script e optix) \<and>
    (\<forall>err. Throws err \<notin> set (script e optix))"
proof (cases "construct W ''TkOptiX'' [(''start_now'', PyBool False)] w")
  case (Inl p)
  with assms show ?thesis by (cases p) (simp add: run_def raised_def)
next
  case (Inr p)
  obtain optix w' where p: "p = (optix, w')" by (cases p)
  obtain r w2 tr where ex: "exec (invoke W) (script e optix) w' = (r, w2, tr)"
    by (cases "exec (invoke W) (script e optix) w'")
  have "r = None"
    using assms Inr p ex by (simp add: run_def raised_def)
  with ex have ex': "exec (invoke W) (script e optix) w' = (None, w2, tr)" by simp
  from exec_complete [OF script_handler_free ex'] have
    tr: "tr = calls_of (script e optix)" and nt: "\<forall>err. Throws err \<notin> set (script e optix)"
    by simp_all
  from tr have "issued W e w = calls_of (script e optix)"
    using Inr p ex by (simp add: issued_def events_def run_def calls_in_map_Called)
  with nt show ?thesis by blast
qed

lemma script_no_throws:
  assumes "\<forall>err. Throws err \<notin> set (script e optix)"
  shows "\<exists>m colors.
    cell_12 e optix = [optix_call optix ''update_material'' [PyStr ''glass'', m] [(''refresh'', PyBool True)]] \<and>
    cell_14 e optix = [optix_call optix ''update_data'' [PyStr ''particles_g'']
             [(''c'', PyArray2 (map (map (fmul 10)) colors))]]"
proof -
  have a: "\<forall>err. Throws err \<notin> set (cell_12 e optix)" and b: "\<forall>err. Throws err \<notin> set (cell_14 e optix)"
    using assms by (simp_all add: script_def)
  from a obtain m where "cell_12 e optix = [optix_call optix ''update_material'' [PyStr ''glass'', m] [(''refresh'', PyBool True)]]"
    by (auto simp: cell_12_def split: sum.splits)
  moreover from b obtain colors where "cell_14 e optix = [optix_call optix ''update_data'' [PyStr ''particles_g'']
             [(''c'', PyArray2 (map (map (fmul 10)) colors))]]"
    by (auto simp: cell_14_def split: sum.splits)
  ultimately show ?thesis by blast
qed

lemma script_lifecycle:
  assumes "\<forall>err. Throws err \<notin> set (script e optix)"
  shows "lifecycle_order (remove1 ''set_uint'' config_methods) (calls_of (script e optix))"
proof -
  from script_no_throws [OF assms] obtain m colors where
    c: "cell_12 e optix = [optix_call optix ''update_material'' [PyStr ''glass'', m] [(''refresh'', PyBool True)]]"
    "cell_14 e optix = [optix_call optix ''update_data'' [PyStr ''particles_g'']
             [(''c'', PyArray2 (map (map (fmul 10)) colors))]]" by blast
  show ?thesis
    by (simp add: script_def c cell_defs' optix_call_def calls_of_append lifecycle_order_def
        config_methods_def update_methods_def before_start_def from_start_def)
qed


section \<open>The sample run\<close>

lemma exec_quiet:
  "handler_free ss \<Longrightarrow> \<forall>err. Throws err \<notin> set ss \<Longrightarrow>
     exec (invoke quiet_world) ss w = (None, w + length (calls_of ss), calls_of ss)"
proof (induction ss arbitrary: w)
  case Nil
  show ?case by simp
next
  case (Cons st ss)
  show ?case
  proof (cases st)
    case (Call c)
    with Cons.prems have "handler_free ss" "\<forall>err. Throws err \<notin> set ss" by simp_all
    then have ih: "exec (invoke quiet_world) ss w' = (None, w' + length (calls_of ss), calls_of ss)"
      for w' by (rule Cons.IH)
    have "invoke quiet_world c w = Inr (PyNone, Suc w)"
      by (simp add: quiet_world_def)
    with Call show ?thesis by (simp add: ih)
  next
    case (Print v)
    with Cons.prems have "handler_free ss" "\<forall>err. Throws err \<notin> set ss" by simp_all
    then have "exec (invoke quiet_world) ss w = (None, w + length (calls_of ss), calls_of ss)"
      by (rule Cons.IH)
    with Print show ?thesis by simp
  next
    case (Throws err)
    from Cons.prems have "Throws err \<notin> set (st # ss)" by blast
    with Throws show ?thesis by simp
  next
    case (Try body handler)
    with Cons.prems show ?thesis by simp
  qed
qed

lemma sample_refraction:
  "set_refraction_index printed_clear_glass v \<noteq> Inl err"
  by (simp add: set_refraction_index_def printed_clear_glass_def)

lemma sample_no_throws: "Throws err \<notin> set (script sample_env optix)"
  by (auto simp: script_def cell_defs optix_call_def sample_env_def sample_refraction
      split: sum.splits)

lemma run_quiet:
  "run quiet_world sample_env 0 =
     (None, length (calls_of (script sample_env (Obj 0))),
      Created ''TkOptiX'' [(''start_now'', PyBool False)] (Obj 0) #
        map Called (calls_of (script sample_env (Obj 0))))"
proof -
  have "exec (invoke quiet_world) (script sample_env (Obj 0)) 0 =
      (None, 0 + length (calls_of (script sample_env (Obj 0))), calls_of (script sample_env (Obj 0)))"
    by (rule exec_quiet) (simp_all add: script_handler_free sample_no_throws)
  then show ?thesis
    by (simp add: run_def) (simp add: quiet_world_def)
qed

lemma issued_quiet: "issued quiet_world sample_env 0 = calls_of (script sample_env (Obj 0))"
  by (simp add: issued_def events_def run_quiet calls_in_map_Called)

lemma raised_quiet: "raised (run quiet_world sample_env 0) = None"
  by (simp add: raised_def run_quiet)

lemma sample_cells:
  "\<exists>m colors.
    cell_12 sample_env optix = [optix_call optix ''update_material'' [PyStr ''glass'', m] [(''refresh'', PyBool True)]] \<and>
    cell_14 sample_env optix = [optix_call optix ''update_data'' [PyStr ''particles_g'']
             [(''c'', PyArray2 (map (map (fmul 10)) colors))]]"
  by (rule script_no_throws) (simp add: sample_no_throws)

lemma sample_meths:
  "map meth (calls_of (script sample_env (Obj 0))) =
     [''set_param'', ''set_uint'', ''setup_material'', ''setup_material'', ''setup_material'',
      ''set_data'', ''set_data'', ''set_data'', ''set_data'', ''setup_camera'', ''set_background'',
      ''set_ambient'', ''set_float'', ''set_float'', ''add_postproc'', ''setup_light'',
      ''setup_light'', ''setup_light'', ''start'', ''update_material'', ''update_data'',
      ''update_data'', ''update_light'', ''update_light'', ''set_uint'', ''close'']"
proof -
  from sample_cells [of "Obj 0"] obtain m colors where
    c: "cell_12 sample_env (Obj 0) = [optix_call (Obj 0) ''update_material'' [PyStr ''glass'', m] [(''refresh'', PyBool True)]]"
    "cell_14 sample_env (Obj 0) = [optix_call (Obj 0) ''update_data'' [PyStr ''particles_g'']
             [(''c'', PyArray2 (map (map (fmul 10)) colors))]]" by blast
  show ?thesis
    by (simp add: script_def c cell_defs' optix_call_def calls_of_append)
qed

section \<open>The calls on the renderer\<close>

text \<open>
  Claim C1, amended.  Every call a run makes on the renderer is one the system overview
  lists (\<open>set_param\<close>, \<open>setup_material\<close>, \<open>set_data\<close>, \<open>setup_camera\<close>, \<open>setup_light\<close>,
  \<open>add_postproc\<close>, \<open>start\<close>, an \<open>update_*\<close> call, \<open>close\<close>) or one of \<open>set_uint\<close>,
  \<open>set_float\<close>, \<open>set_background\<close>, \<open>set_ambient\<close>.  As stated, without the last four,
  the claim fails: the second call of the sample run is \<open>set_uint\<close>.
\<close>

theorem calls_listed_or_setter:
  "c \<in> set (issued W e w) \<Longrightarrow> listed (meth c) \<or> meth c \<in> set other_setters"
proof -
  assume c: "c \<in> set (issued W e w)"
  from issued_subset [OF c] obtain optix where "c \<in> set (calls_of (script e optix))" ..
  then show ?thesis
    by (auto simp: script_def cell_defs optix_call_def calls_of_append listed_def other_setters_def
        split: sum.splits)
qed

lemma sample_nth_meth:
  "i < 26 \<Longrightarrow> meth (issued quiet_world sample_env 0 ! i) =
     map meth (calls_of (script sample_env (Obj 0))) ! i"
proof -
  assume "i < 26"
  moreover have "length (calls_of (script sample_env (Obj 0))) = 26"
    using arg_cong [OF sample_meths, of length] by simp
  ultimately show ?thesis by (simp add: issued_quiet)
qed

theorem calls_listed_or_setter_witness:
  "issued quiet_world sample_env 0 ! 1 \<in> set (issued quiet_world sample_env 0) \<and>
   (listed (meth (issued quiet_world sample_env 0 ! 1)) \<or>
    meth (issued quiet_world sample_env 0 ! 1) \<in> set other_setters)"
proof -
  have "length (issued quiet_world sample_env 0) = 26"
    using arg_cong [OF sample_meths, of length] by (simp add: issued_quiet)
  then have "issued quiet_world sample_env 0 ! 1 \<in> set (issued quiet_world sample_env 0)"
    by simp
  then show ?thesis
    using calls_listed_or_setter [of "issued quiet_world sample_env 0 ! 1" quiet_world sample_env 0]
    by simp
qed

theorem unlisted_call_counterexample:
  "issued quiet_world sample_env 0 ! 1 \<in> set (issued quiet_world sample_env 0) \<and>
   meth (issued quiet_world sample_env 0 ! 1) = ''set_uint'' \<and>
   \<not> listed (meth (issued quiet_world sample_env 0 ! 1))"
proof -
  have "length (issued quiet_world sample_env 0) = 26"
    using arg_cong [OF sample_meths, of length] by (simp add: issued_quiet)
  then have "issued quiet_world sample_env 0 ! 1 \<in> set (issued quiet_world sample_env 0)"
    by simp
  then show ?thesis
    by (simp add: sample_nth_meth sample_meths listed_def)
qed


lemma lifecycle_complete:
  assumes "raised (run W e w) = None"
  shows "lifecycle_order (remove1 ''set_uint'' config_methods) (issued W e w) \<and>
    set_uint_calls (before_start (issued W e w)) =
      [([PyStr ''path_seg_range'', PyInt 15, PyInt 30], [])] \<and>
    set_uint_calls (from_start (issued W e w)) =
      [([PyStr ''path_seg_range'', PyInt 2, PyInt 4], [(''refresh'', PyBool True)])]"
proof -
  from complete_run [OF assms] obtain optix where i: "issued W e w = calls_of (script e optix)"
    and nt: "\<forall>err. Throws err \<notin> set (script e optix)" by blast
  from script_no_throws [OF nt] obtain m colors where
    c: "cell_12 e optix = [optix_call optix ''update_material'' [PyStr ''glass'', m] [(''refresh'', PyBool True)]]"
    "cell_14 e optix = [optix_call optix ''update_data'' [PyStr ''particles_g'']
             [(''c'', PyArray2 (map (map (fmul 10)) colors))]]" by blast
  have "set_uint_calls (before_start (calls_of (script e optix))) =
      [([PyStr ''path_seg_range'', PyInt 15, PyInt 30], [])]"
    by (simp add: script_def c cell_defs' optix_call_def calls_of_append set_uint_calls_def
        before_start_def)
  moreover have "set_uint_calls (from_start (calls_of (script e optix))) =
      [([PyStr ''path_seg_range'', PyInt 2, PyInt 4], [(''refresh'', PyBool True)])]"
    by (simp add: script_def c cell_defs' optix_call_def calls_of_append set_uint_calls_def
        from_start_def)
  ultimately show ?thesis
    using script_lifecycle [OF nt] by (simp add: i)
qed

text \<open>The order of the calls of the script, whichever of cells 12 and 14 raise.\<close>

lemma script_order:
  "list_all (\<lambda>c. meth c \<notin> set (remove1 ''set_uint'' config_methods))
     (from_start (calls_of (script e optix)))"
  "list_all (\<lambda>c. meth c \<notin> set update_methods) (before_start (calls_of (script e optix)))"
  "length (filter (\<lambda>c. meth c = ''start'') (calls_of (script e optix))) \<le> 1"
  "list_all (\<lambda>c. meth c \<noteq> ''close'') (butlast (calls_of (script e optix)))"
  "prefix (set_uint_calls (before_start (calls_of (script e optix))))
     [([PyStr ''path_seg_range'', PyInt 15, PyInt 30], [])]"
  "prefix (set_uint_calls (from_start (calls_of (script e optix))))
     [([PyStr ''path_seg_range'', PyInt 2, PyInt 4], [(''refresh'', PyBool True)])]"
  by (simp_all add: script_def cell_defs optix_call_def calls_of_append config_methods_def
      update_methods_def before_start_def from_start_def set_uint_calls_def split: sum.splits)

text \<open>An initial part of a call sequence keeps that order.\<close>

lemma takeWhile_take_prefix: "prefix (takeWhile P (take k xs)) (takeWhile P xs)"
proof (induction xs arbitrary: k)
  case Nil
  show ?case by simp
next
  case (Cons x xs)
  show ?case
  proof (cases k)
    case 0
    then show ?thesis by simp
  next
    case (Suc j)
    with Cons [of j] show ?thesis by simp
  qed
qed

lemma dropWhile_take_prefix: "prefix (dropWhile P (take k xs)) (dropWhile P xs)"
proof (induction xs arbitrary: k)
  case Nil
  show ?case by simp
next
  case (Cons x xs)
  show ?case
  proof (cases k)
    case 0
    then show ?thesis by simp
  next
    case (Suc j)
    with Cons [of j] show ?thesis by (simp add: take_is_prefix)
  qed
qed

lemma butlast_prefix: "prefix xs ys \<Longrightarrow> prefix (butlast xs) (butlast ys)"
proof -
  assume "prefix xs ys"
  then obtain zs where ys: "ys = xs @ zs" by (auto simp: prefix_def)
  show ?thesis
  proof (cases "zs = []")
    case True
    with ys show ?thesis by simp
  next
    case False
    with ys have "butlast ys = xs @ butlast zs" by (simp add: butlast_append)
    then have "prefix xs (butlast ys)" by simp
    with prefixeq_butlast [of xs] show ?thesis by (rule prefix_order.trans)
  qed
qed

lemma list_all_prefix: "prefix xs ys \<Longrightarrow> list_all P ys \<Longrightarrow> list_all P xs"
  by (auto simp: list_all_iff dest: set_mono_prefix)

lemma set_uint_calls_prefix: "prefix xs ys \<Longrightarrow> prefix (set_uint_calls xs) (set_uint_calls ys)"
  by (simp add: set_uint_calls_def map_mono_prefix filter_mono_prefix)

lemma filter_take_length: "length (filter P (take k xs)) \<le> length (filter P xs)"
  by (rule prefix_length_le) (simp add: filter_mono_prefix take_is_prefix)

text \<open>
  Claim C2, amended.  In every run, whether an exception interrupts it or not: from
  \<open>start\<close> on no \<open>set_param\<close>, \<open>setup_material\<close>, \<open>set_data\<close>, \<open>setup_camera\<close>,
  \<open>set_background\<close>, \<open>set_ambient\<close>, \<open>set_float\<close>, \<open>add_postproc\<close> or \<open>setup_light\<close> is
  called; before \<open>start\<close> no \<open>update_material\<close>, \<open>update_data\<close> or \<open>update_light\<close>;
  \<open>start\<close> is called at most once; no call follows \<open>close\<close>; and \<open>set_uint\<close> is called
  at most once before \<open>start\<close>, with \<open>(15, 30)\<close>, and at most once after it, with \<open>(2, 4)\<close>
  and \<open>refresh=True\<close>.  In a run that nothing interrupts there is exactly one \<open>start\<close>,
  \<open>close\<close> is the last call, and both \<open>set_uint\<close> calls are made.  As stated, with
  \<open>set_uint\<close> among the calls that all precede \<open>start\<close>, the claim fails: call 24 of the
  sample run is \<open>set_uint\<close>, and call 18 is \<open>start\<close>.
\<close>

theorem lifecycle_amended:
  "list_all (\<lambda>c. meth c \<notin> set (remove1 ''set_uint'' config_methods)) (from_start (issued W e w)) \<and>
   list_all (\<lambda>c. meth c \<notin> set update_methods) (before_start (issued W e w)) \<and>
   length (filter (\<lambda>c. meth c = ''start'') (issued W e w)) \<le> 1 \<and>
   list_all (\<lambda>c. meth c \<noteq> ''close'') (butlast (issued W e w)) \<and>
   prefix (set_uint_calls (before_start (issued W e w)))
     [([PyStr ''path_seg_range'', PyInt 15, PyInt 30], [])] \<and>
   prefix (set_uint_calls (from_start (issued W e w)))
     [([PyStr ''path_seg_range'', PyInt 2, PyInt 4], [(''refresh'', PyBool True)])] \<and>
   (raised (run W e w) = None \<longrightarrow>
      lifecycle_order (remove1 ''set_uint'' config_methods) (issued W e w) \<and>
      set_uint_calls (before_start (issued W e w)) =
        [([PyStr ''path_seg_range'', PyInt 15, PyInt 30], [])] \<and>
      set_uint_calls (from_start (issued W e w)) =
        [([PyStr ''path_seg_range'', PyInt 2, PyInt 4], [(''refresh'', PyBool True)])])"
proof -
  from issued_take [of W e w] obtain optix k where
    i: "issued W e w = take k (calls_of (script e optix))" by blast
  have b: "prefix (before_start (issued W e w)) (before_start (calls_of (script e optix)))"
    unfolding i before_start_def by (rule takeWhile_take_prefix)
  have f: "prefix (from_start (issued W e w)) (from_start (calls_of (script e optix)))"
    unfolding i from_start_def by (rule dropWhile_take_prefix)
  have l: "prefix (butlast (issued W e w)) (butlast (calls_of (script e optix)))"
    unfolding i by (rule butlast_prefix) (rule take_is_prefix)
  have c1: "list_all (\<lambda>c. meth c \<notin> set (remove1 ''set_uint'' config_methods))
      (from_start (issued W e w))"
    using f script_order(1) by (rule list_all_prefix)
  have c2: "list_all (\<lambda>c. meth c \<notin> set update_methods) (before_start (issued W e w))"
    using b script_order(2) by (rule list_all_prefix)
  have "length (filter (\<lambda>c. meth c = ''start'') (issued W e w)) \<le>
      length (filter (\<lambda>c. meth c = ''start'') (calls_of (script e optix)))"
    unfolding i by (rule filter_take_length)
  with script_order(3) [of e optix]
  have c3: "length (filter (\<lambda>c. meth c = ''start'') (issued W e w)) \<le> 1"
    by (rule order_trans [rotated])
  have c4: "list_all (\<lambda>c. meth c \<noteq> ''close'') (butlast (issued W e w))"
    using l script_order(4) by (rule list_all_prefix)
  have c5: "prefix (set_uint_calls (before_start (issued W e w)))
      [([PyStr ''path_seg_range'', PyInt 15, PyInt 30], [])]"
    using set_uint_calls_prefix [OF b] script_order(5) by (rule prefix_order.trans)
  have c6: "prefix (set_uint_calls (from_start (issued W e w)))
      [([PyStr ''path_seg_range'', PyInt 2, PyInt 4], [(''refresh'', PyBool True)])]"
    using set_uint_calls_prefix [OF f] script_order(6) by (rule prefix_order.trans)
  have c7: "raised (run W e w) = None \<longrightarrow>
      lifecycle_order (remove1 ''set_uint'' config_methods) (issued W e w) \<and>
      set_uint_calls (before_start (issued W e w)) =
        [([PyStr ''path_seg_range'', PyInt 15, PyInt 30], [])] \<and>
      set_uint_calls (from_start (issued W e w)) =
        [([PyStr ''path_seg_range'', PyInt 2, PyInt 4], [(''refresh'', PyBool True)])]"
    using lifecycle_complete [of W e w] by blast
  show ?thesis
    by (intro conjI c1 c2 c3 c4 c5 c6 c7)
qed

theorem lifecycle_amended_witness:
  "raised (run quiet_world sample_env 0) = None \<and>
   lifecycle_order (remove1 ''set_uint'' config_methods) (issued quiet_world sample_env 0) \<and>
   set_uint_calls (before_start (issued quiet_world sample_env 0)) =
      [([PyStr ''path_seg_range'', PyInt 15, PyInt 30], [])] \<and>
   set_uint_calls (from_start (issued quiet_world sample_env 0)) =
      [([PyStr ''path_seg_range'', PyInt 2, PyInt 4], [(''refresh'', PyBool True)])] \<and>
   length (issued broken_world sample_env 0) = 2 \<and>
   list_all (\<lambda>c. meth c \<notin> set update_methods) (before_start (issued broken_world sample_env 0)) \<and>
   prefix (set_uint_calls (before_start (issued broken_world sample_env 0)))
     [([PyStr ''path_seg_range'', PyInt 15, PyInt 30], [])]"
proof -
  have "exec (invoke broken_world) (script sample_env (Obj 0)) 0 =
      (Some (LibraryError ''set_uint''), 1,
       calls_of (cell_3 (Obj 0) @ cell_4 (Obj 0)))"
    by (simp add: script_def cell_3_def cell_4_def optix_call_def broken_world_def)
  moreover have "construct broken_world ''TkOptiX'' [(''start_now'', PyBool False)] 0 = Inr (Obj 0, 0)"
    by (simp add: broken_world_def)
  ultimately have "issued broken_world sample_env 0 = calls_of (cell_3 (Obj 0) @ cell_4 (Obj 0))"
    by (simp add: issued_def events_def run_def calls_in_map_Called)
  then have "length (issued broken_world sample_env 0) = 2"
    by (simp add: cell_3_def cell_4_def optix_call_def)
  with lifecycle_amended [of quiet_world sample_env 0] lifecycle_amended [of broken_world sample_env 0]
    raised_quiet
  show ?thesis by blast
qed

theorem set_uint_after_start_counterexample:
  "length (issued quiet_world sample_env 0) = 26 \<and>
   meth (issued quiet_world sample_env 0 ! 18) = ''start'' \<and>
   meth (issued quiet_world sample_env 0 ! 24) = ''set_uint'' \<and>
   ''set_uint'' \<in> set config_methods \<and>
   \<not> lifecycle_order config_methods (issued quiet_world sample_env 0)"
proof -
  from sample_cells [of "Obj 0"] obtain m colors where
    c: "cell_12 sample_env (Obj 0) = [optix_call (Obj 0) ''update_material'' [PyStr ''glass'', m] [(''refresh'', PyBool True)]]"
    "cell_14 sample_env (Obj 0) = [optix_call (Obj 0) ''update_data'' [PyStr ''particles_g'']
             [(''c'', PyArray2 (map (map (fmul 10)) colors))]]" by blast
  have "\<not> list_all (\<lambda>c. meth c \<notin> set config_methods) (from_start (calls_of (script sample_env (Obj 0))))"
    by (simp add: script_def c cell_defs' optix_call_def calls_of_append config_methods_def
        from_start_def)
  then have "\<not> lifecycle_order config_methods (issued quiet_world sample_env 0)"
    by (simp add: lifecycle_order_def issued_quiet)
  moreover have "length (issued quiet_world sample_env 0) = 26"
    using arg_cong [OF sample_meths, of length] by (simp add: issued_quiet)
  moreover have "''set_uint'' \<in> set config_methods"
    by (simp add: config_methods_def)
  ultimately show ?thesis
    by (simp add: sample_nth_meth sample_meths)
qed

text \<open>
  Claim C3.  Every \<open>set_uint\<close> call of a run has the positional arguments
  \<open>"path_seg_range"\<close>, \<open>lo\<close>, \<open>hi\<close> with integers \<open>0 \<le> lo \<le> hi\<close>, the pair being \<open>(15, 30)\<close>
  or \<open>(2, 4)\<close>.
\<close>

theorem set_uint_arguments:
  "c \<in> set (issued W e w) \<Longrightarrow> meth c = ''set_uint'' \<Longrightarrow>
     \<exists>lo hi. args c = [PyStr ''path_seg_range'', PyInt lo, PyInt hi] \<and> 0 \<le> lo \<and> lo \<le> hi \<and>
       ((lo, hi) = (15, 30) \<or> (lo, hi) = (2, 4))"
proof -
  assume c: "c \<in> set (issued W e w)" and m: "meth c = ''set_uint''"
  from issued_subset [OF c] obtain optix where "c \<in> set (calls_of (script e optix))" ..
  with m have "args c = [PyStr ''path_seg_range'', PyInt 15, PyInt 30] \<or>
      args c = [PyStr ''path_seg_range'', PyInt 2, PyInt 4]"
    by (auto simp: script_def cell_defs optix_call_def calls_of_append split: sum.splits)
  then show ?thesis by auto
qed

lemma sample_length: "length (issued quiet_world sample_env 0) = 26"
  using arg_cong [OF sample_meths, of length] by (simp add: issued_quiet)

theorem set_uint_arguments_witness:
  "issued quiet_world sample_env 0 ! 24 \<in> set (issued quiet_world sample_env 0) \<and>
   meth (issued quiet_world sample_env 0 ! 24) = ''set_uint'' \<and>
   (\<exists>lo hi. args (issued quiet_world sample_env 0 ! 24) = [PyStr ''path_seg_range'', PyInt lo, PyInt hi] \<and>
      0 \<le> lo \<and> lo \<le> hi \<and> ((lo, hi) = (15, 30) \<or> (lo, hi) = (2, 4)))"
proof -
  have a: "issued quiet_world sample_env 0 ! 24 \<in> set (issued quiet_world sample_env 0)"
    by (simp add: sample_length)
  have b: "meth (issued quiet_world sample_env 0 ! 24) = ''set_uint''"
    by (simp add: sample_nth_meth sample_meths)
  from set_uint_arguments [OF a b] a b show ?thesis by blast
qed

lemma distinct_filter_take:
  "distinct (map f (filter P xs)) \<Longrightarrow> distinct (map f (filter P (take k xs)))"
proof -
  assume d: "distinct (map f (filter P xs))"
  have "map f (filter P xs) = map f (filter P (take k xs)) @ map f (filter P (drop k xs))"
    by (metis append_take_drop_id filter_append map_append)
  with d show ?thesis by simp
qed

lemma script_lights:
  "map args (filter (\<lambda>c. meth c = ''setup_light'') (calls_of (script e optix))) =
     [[PyStr ''light1''], [PyStr ''light2''], [PyStr ''light3'']]"
  by (simp add: script_def cell_defs optix_call_def calls_of_append split: sum.splits)

text \<open>
  Claim C4.  Every \<open>setup_light\<close> call of a run has one positional argument, a name
  string, and the keyword arguments \<open>pos\<close>, \<open>color\<close> and \<open>radius\<close>: a position of
  three numbers, a colour of three components or one number, a positive radius; the names of the
  \<open>setup_light\<close> calls of a run are pairwise distinct, and they are \<open>light1\<close>,
  \<open>light2\<close>, \<open>light3\<close> when nothing interrupts the run.
\<close>

theorem setup_light_arguments:
  "(\<forall>c \<in> set (issued W e w). meth c = ''setup_light'' \<longrightarrow>
      (\<exists>name p col r. args c = [PyStr name] \<and>
         kwargs c = [(''pos'', p), (''color'', col), (''radius'', r)] \<and>
         is_position p \<and> is_color col \<and> is_radius r)) \<and>
   distinct (map args (filter (\<lambda>c. meth c = ''setup_light'') (issued W e w))) \<and>
   (raised (run W e w) = None \<longrightarrow>
      map args (filter (\<lambda>c. meth c = ''setup_light'') (issued W e w)) =
        [[PyStr ''light1''], [PyStr ''light2''], [PyStr ''light3'']])"
proof (intro conjI ballI impI)
  fix c
  assume c: "c \<in> set (issued W e w)" and m: "meth c = ''setup_light''"
  from issued_subset [OF c] obtain optix where "c \<in> set (calls_of (script e optix))" ..
  with m show "\<exists>name p col r. args c = [PyStr name] \<and>
         kwargs c = [(''pos'', p), (''color'', col), (''radius'', r)] \<and>
         is_position p \<and> is_color col \<and> is_radius r"
    by (auto simp: script_def cell_defs optix_call_def calls_of_append is_position_def
        is_color_def is_radius_def is_number_def split: sum.splits)
next
  from issued_take [of W e w] obtain optix k where
    "issued W e w = take k (calls_of (script e optix))" by blast
  moreover have "distinct (map args (filter (\<lambda>c. meth c = ''setup_light'') (calls_of (script e optix))))"
    by (simp add: script_lights)
  ultimately show "distinct (map args (filter (\<lambda>c. meth c = ''setup_light'') (issued W e w)))"
    by (simp add: distinct_filter_take)
next
  assume "raised (run W e w) = None"
  from complete_run [OF this] obtain optix where "issued W e w = calls_of (script e optix)"
    by blast
  then show "map args (filter (\<lambda>c. meth c = ''setup_light'') (issued W e w)) =
        [[PyStr ''light1''], [PyStr ''light2''], [PyStr ''light3'']]"
    by (simp add: script_lights)
qed

theorem setup_light_arguments_witness:
  "issued quiet_world sample_env 0 ! 15 \<in> set (issued quiet_world sample_env 0) \<and>
   meth (issued quiet_world sample_env 0 ! 15) = ''setup_light'' \<and>
   raised (run quiet_world sample_env 0) = None \<and>
   (\<exists>name p col r. args (issued quiet_world sample_env 0 ! 15) = [PyStr name] \<and>
      kwargs (issued quiet_world sample_env 0 ! 15) = [(''pos'', p), (''color'', col), (''radius'', r)] \<and>
      is_position p \<and> is_color col \<and> is_radius r) \<and>
   map args (filter (\<lambda>c. meth c = ''setup_light'') (issued quiet_world sample_env 0)) =
        [[PyStr ''light1''], [PyStr ''light2''], [PyStr ''light3'']]"
proof -
  have a: "issued quiet_world sample_env 0 ! 15 \<in> set (issued quiet_world sample_env 0)"
    by (simp add: sample_length)
  have b: "meth (issued quiet_world sample_env 0 ! 15) = ''setup_light''"
    by (simp add: sample_nth_meth sample_meths)
  from setup_light_arguments [of quiet_world sample_env 0] a b raised_quiet show ?thesis
    by blast
qed

lemma script_targets: "c \<in> set (calls_of (script e optix)) \<Longrightarrow> target c = optix"
  by (auto simp: script_def cell_defs optix_call_def calls_of_append split: sum.splits)

text \<open>
  Claim C7.  When the constructor returns, the run creates one object, by
  \<open>TkOptiX(start_now=False)\<close>, and every call of the run is made on it; when the
  constructor raises, nothing is created and nothing is called.
\<close>

theorem one_renderer_object:
  "(construct W ''TkOptiX'' [(''start_now'', PyBool False)] w = Inr (optix, w') \<longrightarrow>
      (\<exists>cs. events (run W e w) =
         Created ''TkOptiX'' [(''start_now'', PyBool False)] optix # map Called cs) \<and>
      created_in (events (run W e w)) = [optix] \<and>
      (\<forall>c \<in> set (issued W e w). target c = optix)) \<and>
   (construct W ''TkOptiX'' [(''start_now'', PyBool False)] w = Inl (err, w') \<longrightarrow>
      events (run W e w) = [])"
proof (intro conjI impI)
  assume ok: "construct W ''TkOptiX'' [(''start_now'', PyBool False)] w = Inr (optix, w')"
  with run_cases [of W w e] obtain k where
    ev: "events (run W e w) =
      Created ''TkOptiX'' [(''start_now'', PyBool False)] optix #
        map Called (take k (calls_of (reached (script e optix))))"
    by auto
  then show "\<exists>cs. events (run W e w) =
         Created ''TkOptiX'' [(''start_now'', PyBool False)] optix # map Called cs"
    by blast
  from ev show "created_in (events (run W e w)) = [optix]"
    by (simp add: created_in_map_Called)
  from reached_calls [OF script_handler_free, of e optix] obtain j where
    "calls_of (reached (script e optix)) = take j (calls_of (script e optix))" ..
  with ev have "issued W e w = take (min k j) (calls_of (script e optix))"
    by (simp add: issued_def calls_in_map_Called)
  then show "\<forall>c \<in> set (issued W e w). target c = optix"
    by (auto dest: in_set_takeD script_targets)
next
  assume "construct W ''TkOptiX'' [(''start_now'', PyBool False)] w = Inl (err, w')"
  then show "events (run W e w) = []"
    by (simp add: run_def events_def)
qed

theorem one_renderer_object_witness:
  "construct quiet_world ''TkOptiX'' [(''start_now'', PyBool False)] 0 = Inr (Obj 0, 0) \<and>
   issued quiet_world sample_env 0 ! 25 \<in> set (issued quiet_world sample_env 0) \<and>
   created_in (events (run quiet_world sample_env 0)) = [Obj 0] \<and>
   target (issued quiet_world sample_env 0 ! 25) = Obj 0"
proof -
  have a: "construct quiet_world ''TkOptiX'' [(''start_now'', PyBool False)] 0 = Inr (Obj 0, 0)"
    by (simp add: quiet_world_def)
  have b: "issued quiet_world sample_env 0 ! 25 \<in> set (issued quiet_world sample_env 0)"
    by (simp add: sample_length)
  from one_renderer_object [of quiet_world 0 "Obj 0" 0 sample_env] a b show ?thesis
    by blast
qed


section \<open>The grid\<close>

text \<open>The values of the float expressions of cell 2, computed by \<open>fl\<close>.\<close>

lemma py_s_val: "py_s = 6004799503160661 / 4503599627370496"
  by code_simp

lemma half_val: "fmul (lit (5 / 10)) py_s = 6004799503160661 / 9007199254740992"
proof -
  have "fmul (lit (5 / 10)) (6004799503160661 / 4503599627370496) = 6004799503160661 / 9007199254740992"
    by code_simp
  then show ?thesis by (simp only: py_s_val)
qed

lemma low_val: "fmul (lit (15 / 10)) py_s = 2"
proof -
  have "fmul (lit (15 / 10)) (6004799503160661 / 4503599627370496) = 2"
    by code_simp
  then show ?thesis by (simp only: py_s_val)
qed

lemma axis_val:
  "mgrid_axis 0 py_a py_s =
     [0, 6004799503160661 / 4503599627370496, 6004799503160661 / 2251799813685248, 4,
      6004799503160661 / 1125899906842624, 3752999689475413 / 562949953421312]"
proof -
  have "mgrid_axis 0 8 (6004799503160661 / 4503599627370496) =
     [0, 6004799503160661 / 4503599627370496, 6004799503160661 / 2251799813685248, 4,
      6004799503160661 / 1125899906842624, 3752999689475413 / 562949953421312]"
    by code_simp
  then show ?thesis by (simp only: py_s_val py_a_def)
qed

lemma axis_multiples:
  "mgrid_axis 0 py_a py_s = [0, py_s, fmul 2 py_s, fmul 3 py_s, fmul 4 py_s, fmul 5 py_s]"
proof -
  have "[0, 6004799503160661 / 4503599627370496, 6004799503160661 / 2251799813685248, 4,
      6004799503160661 / 1125899906842624, 3752999689475413 / 562949953421312] =
    [0, 6004799503160661 / 4503599627370496, fmul 2 (6004799503160661 / 4503599627370496),
     fmul 3 (6004799503160661 / 4503599627370496), fmul 4 (6004799503160661 / 4503599627370496),
     fmul 5 (6004799503160661 / 4503599627370496)]"
    by code_simp
  also have "\<dots> = [0, py_s, fmul 2 py_s, fmul 3 py_s, fmul 4 py_s, fmul 5 py_s]"
    by (simp only: py_s_val)
  finally show ?thesis by (simp only: axis_val)
qed

lemma axis_distinct: "distinct (mgrid_axis 0 py_a py_s)"
  by (simp add: axis_val)

lemma lit_vals:
  "lit (7 / 10) = 3152519739159347 / 4503599627370496"
  "lit (4 / 10) = 3602879701896397 / 9007199254740992"
  "lit (9 / 10) = 8106479329266893 / 9007199254740992"
  by code_simp+

text \<open>The rows of \<open>xyz\<close>: the triples of axis values, the last coordinate varying fastest.\<close>

lemma transpose3:
  assumes "length A = n" "length B = n" "length C = n"
  shows "transpose [A, B, C] = map (\<lambda>i. [A ! i, B ! i, C ! i]) [0..<n]"
proof -
  have "transpose [A, B, C] = map (\<lambda>i. map (\<lambda>j. [A, B, C] ! j ! i) [0..<length [A, B, C]]) [0..<n]"
    by (rule transpose_rectangle) (use assms in \<open>auto simp: nth_Cons split: nat.splits\<close>)
  also have "[0..<length [A, B, C]] = [0, 1, 2]"
    by (simp add: upt_rec)
  finally show ?thesis by simp
qed

lemma xyz_rows:
  "xyz = map (\<lambda>(x, y, z). [x, y, z])
     (List.product (mgrid_axis 0 py_a py_s)
        (List.product (mgrid_axis 0 py_a py_s) (mgrid_axis 0 py_a py_s)))"
proof -
  define idx where "idx = List.product (mgrid_axis 0 py_a py_s)
        (List.product (mgrid_axis 0 py_a py_s) (mgrid_axis 0 py_a py_s))"
  have "xyz = transpose [map (\<lambda>(x, y, z). x) idx, map (\<lambda>(x, y, z). y) idx, map (\<lambda>(x, y, z). z) idx]"
    by (simp add: xyz_def mgrid3_flat_def idx_def Let_def)
  also have "\<dots> = map (\<lambda>i. [map (\<lambda>(x, y, z). x) idx ! i, map (\<lambda>(x, y, z). y) idx ! i,
      map (\<lambda>(x, y, z). z) idx ! i]) [0..<length idx]"
    by (rule transpose3) simp_all
  also have "\<dots> = map (\<lambda>(x, y, z). [x, y, z]) idx"
    by (rule nth_equalityI) (auto split: prod.splits)
  finally show ?thesis by (simp only: idx_def)
qed

lemma xyz_length: "length xyz = 216"
  by (simp add: xyz_rows axis_val)

lemma xyz_distinct: "distinct xyz"
proof -
  have "inj (\<lambda>(x :: rat, y :: rat, z :: rat). [x, y, z])"
    by (auto simp: inj_on_def)
  then have "inj_on (\<lambda>(x :: rat, y :: rat, z :: rat). [x, y, z]) S" for S
    by (rule inj_on_subset) simp
  then show ?thesis
    unfolding xyz_rows by (simp add: distinct_map distinct_product axis_distinct)
qed

lemma xyz_row_iff:
  "row \<in> set xyz \<longleftrightarrow>
     (\<exists>x y z. row = [x, y, z] \<and> x \<in> set (mgrid_axis 0 py_a py_s) \<and>
        y \<in> set (mgrid_axis 0 py_a py_s) \<and> z \<in> set (mgrid_axis 0 py_a py_s))"
  unfolding xyz_rows by (auto simp: image_iff)


section \<open>Selecting rows by a mask\<close>

lemma set_mask_index:
  assumes "length m = length A"
  shows "set (mask_index A m) = {A ! i | i. i < length A \<and> m ! i}"
proof -
  have "set (mask_index A m) = fst ` {p \<in> set (zip A m). snd p}"
    by (simp add: mask_index_def)
  also have "\<dots> = {A ! i | i. i < length A \<and> m ! i}"
    using assms by (auto simp: set_zip image_iff) force
  finally show ?thesis .
qed

lemma mask_index_mem:
  assumes "length m = length A" "distinct A" "r < length A"
  shows "A ! r \<in> set (mask_index A m) \<longleftrightarrow> m ! r"
  using assms by (auto simp: set_mask_index nth_eq_iff_index_eq)

lemma mask_index_subset: "set (mask_index A m) \<subseteq> set A"
  by (auto simp: mask_index_def dest: set_zip_leftD)

lemma rnd_length: "length (rnd u) = length xyz"
  by (simp add: rnd_def)

lemma rnd_nth: "r < length xyz \<Longrightarrow> rnd u ! r = u r"
  by (simp add: rnd_def)

lemma on_wall_length: "length on_wall = length xyz"
  by (simp add: on_wall_def col_def)

lemma inside_length: "length inside = length xyz"
  by (simp add: inside_def col_def)

lemma on_wall_nth:
  "r < length xyz \<Longrightarrow> on_wall ! r \<longleftrightarrow> xyz ! r ! 0 = 0 \<or> xyz ! r ! 1 = 0 \<or> xyz ! r ! 2 = 0"
  by (simp add: on_wall_def col_def)

lemma inside_nth:
  "r < length xyz \<Longrightarrow> inside ! r \<longleftrightarrow> 0 < xyz ! r ! 0 \<and> 0 < xyz ! r ! 1 \<and> 0 < xyz ! r ! 2"
  by (simp add: inside_def col_def)

lemma diffuse_mem:
  "r < length xyz \<Longrightarrow> xyz ! r \<in> set (xyz_c_diffuse u) \<longleftrightarrow>
     (xyz ! r ! 0 = 0 \<or> xyz ! r ! 1 = 0 \<or> xyz ! r ! 2 = 0) \<and> u r < lit (7 / 10)"
  unfolding xyz_c_diffuse_def
  by (subst mask_index_mem) (simp_all add: xyz_distinct on_wall_length rnd_length on_wall_nth rnd_nth)

lemma mirror_mem:
  "r < length xyz \<Longrightarrow> xyz ! r \<in> set (xyz_c_mirror u) \<longleftrightarrow>
     (xyz ! r ! 0 = 0 \<or> xyz ! r ! 1 = 0 \<or> xyz ! r ! 2 = 0) \<and> lit (7 / 10) \<le> u r"
  unfolding xyz_c_mirror_def
  by (subst mask_index_mem) (simp_all add: xyz_distinct on_wall_length rnd_length on_wall_nth rnd_nth)

lemma glass_mem:
  "r < length xyz \<Longrightarrow> xyz ! r \<in> set (xyz_p_glass u) \<longleftrightarrow>
     (0 < xyz ! r ! 0 \<and> 0 < xyz ! r ! 1 \<and> 0 < xyz ! r ! 2) \<and> u r < lit (4 / 10)"
  unfolding xyz_p_glass_def
  by (subst mask_index_mem) (simp_all add: xyz_distinct inside_length rnd_length inside_nth rnd_nth)

lemma plastic_mem:
  "r < length xyz \<Longrightarrow> xyz ! r \<in> set (xyz_p_plastic u) \<longleftrightarrow>
     (0 < xyz ! r ! 0 \<and> 0 < xyz ! r ! 1 \<and> 0 < xyz ! r ! 2) \<and> lit (9 / 10) < u r"
  unfolding xyz_p_plastic_def
  by (subst mask_index_mem) (simp_all add: xyz_distinct inside_length rnd_length inside_nth rnd_nth)

lemma diffuse_subset: "set (xyz_c_diffuse u) \<subseteq> set xyz"
  by (simp add: xyz_c_diffuse_def mask_index_subset)

lemma mirror_subset: "set (xyz_c_mirror u) \<subseteq> set xyz"
  by (simp add: xyz_c_mirror_def mask_index_subset)

lemma glass_subset: "set (xyz_p_glass u) \<subseteq> set xyz"
  by (simp add: xyz_p_glass_def mask_index_subset)

lemma plastic_subset: "set (xyz_p_plastic u) \<subseteq> set xyz"
  by (simp add: xyz_p_plastic_def mask_index_subset)

lemma xyz_samples:
  "xyz ! 0 = [0, 0, 0]"
  "xyz ! 43 = [6004799503160661 / 4503599627370496, 6004799503160661 / 4503599627370496,
     6004799503160661 / 4503599627370496]"
  "xyz ! 115 = [4, 6004799503160661 / 4503599627370496, 6004799503160661 / 4503599627370496]"
  by (simp_all add: xyz_rows axis_val)

lemma sample_rnd: "r < 216 \<Longrightarrow> rnd (uniform sample_env) ! r = of_nat r / 216"
  by (simp add: rnd_nth xyz_length sample_env_def)

text \<open>
  Claim C8.  For every row of \<open>xyz\<close> with a coordinate equal to \<open>0\<close>, the row is in
  \<open>xyz_c_diffuse\<close> exactly when its draw is below \<open>0.7\<close> and in \<open>xyz_c_mirror\<close> exactly
  when it is not; the two arrays have no row in common, and together they hold exactly the
  rows of \<open>xyz\<close> with a coordinate equal to \<open>0\<close>.  Here \<open>0.7\<close> is the float of the
  notebook's comparison \<open>rnd < 0.7\<close>, and the statement holds whatever the draws are.
\<close>

theorem boundary_partition:
  "(\<forall>r < length xyz. xyz ! r ! 0 = 0 \<or> xyz ! r ! 1 = 0 \<or> xyz ! r ! 2 = 0 \<longrightarrow>
      (xyz ! r \<in> set (xyz_c_diffuse u) \<longleftrightarrow> rnd u ! r < lit (7 / 10)) \<and>
      (xyz ! r \<in> set (xyz_c_mirror u) \<longleftrightarrow> \<not> rnd u ! r < lit (7 / 10))) \<and>
   set (xyz_c_diffuse u) \<inter> set (xyz_c_mirror u) = {} \<and>
   set (xyz_c_diffuse u) \<union> set (xyz_c_mirror u) =
     {row \<in> set xyz. row ! 0 = 0 \<or> row ! 1 = 0 \<or> row ! 2 = 0}"
proof (intro conjI)
  show "\<forall>r < length xyz. xyz ! r ! 0 = 0 \<or> xyz ! r ! 1 = 0 \<or> xyz ! r ! 2 = 0 \<longrightarrow>
      (xyz ! r \<in> set (xyz_c_diffuse u) \<longleftrightarrow> rnd u ! r < lit (7 / 10)) \<and>
      (xyz ! r \<in> set (xyz_c_mirror u) \<longleftrightarrow> \<not> rnd u ! r < lit (7 / 10))"
    by (simp add: diffuse_mem mirror_mem rnd_nth not_less)
next
  show "set (xyz_c_diffuse u) \<inter> set (xyz_c_mirror u) = {}"
  proof (rule ccontr)
    assume "set (xyz_c_diffuse u) \<inter> set (xyz_c_mirror u) \<noteq> {}"
    then obtain row where d: "row \<in> set (xyz_c_diffuse u)" and m: "row \<in> set (xyz_c_mirror u)"
      by blast
    from d diffuse_subset have "row \<in> set xyz" by blast
    then obtain r where r: "r < length xyz" "row = xyz ! r"
      by (auto simp: in_set_conv_nth)
    from d m r show False
      by (simp add: diffuse_mem mirror_mem)
  qed
next
  show "set (xyz_c_diffuse u) \<union> set (xyz_c_mirror u) =
     {row \<in> set xyz. row ! 0 = 0 \<or> row ! 1 = 0 \<or> row ! 2 = 0}"
  proof (rule set_eqI)
    fix row
    show "row \<in> set (xyz_c_diffuse u) \<union> set (xyz_c_mirror u) \<longleftrightarrow>
      row \<in> {row \<in> set xyz. row ! 0 = 0 \<or> row ! 1 = 0 \<or> row ! 2 = 0}"
    proof (cases "row \<in> set xyz")
      case True
      then obtain r where r: "r < length xyz" "row = xyz ! r"
        by (auto simp: in_set_conv_nth)
      then show ?thesis
        by (auto simp: diffuse_mem mirror_mem)
    next
      case False
      with diffuse_subset mirror_subset show ?thesis by blast
    qed
  qed
qed

theorem boundary_partition_witness:
  "(0 :: nat) < length xyz \<and> xyz ! 0 ! 0 = 0 \<and>
   rnd (uniform sample_env) ! 0 < lit (7 / 10) \<and>
   xyz ! 0 \<in> set (xyz_c_diffuse (uniform sample_env)) \<and>
   xyz ! 0 \<notin> set (xyz_c_mirror (uniform sample_env))"
proof -
  have a: "(0 :: nat) < length xyz"
    by (simp add: xyz_length)
  have b: "xyz ! 0 ! 0 = 0"
    by (simp add: xyz_samples)
  have c: "rnd (uniform sample_env) ! 0 < lit (7 / 10)"
    by (simp only: lit_vals) (simp add: sample_rnd)
  from boundary_partition [of "uniform sample_env"] a b c show ?thesis
    by blast
qed


section \<open>Particle positions\<close>

lemma half_cell_val:
  "half_cell = [6004799503160661 / 9007199254740992, 6004799503160661 / 9007199254740992,
     6004799503160661 / 9007199254740992]"
  by (simp only: half_cell_def half_val)

lemma shifted_points:
  "fadd 0 (6004799503160661 / 9007199254740992) = 6004799503160661 / 9007199254740992"
  "fadd (6004799503160661 / 4503599627370496) (6004799503160661 / 9007199254740992) = 2"
  "fadd (6004799503160661 / 2251799813685248) (6004799503160661 / 9007199254740992) =
     3752999689475413 / 1125899906842624"
  "fadd 4 (6004799503160661 / 9007199254740992) = 5254199565265579 / 1125899906842624"
  "fadd (6004799503160661 / 1125899906842624) (6004799503160661 / 9007199254740992) = 6"
  "fadd (3752999689475413 / 562949953421312) (6004799503160661 / 9007199254740992) =
     8256599316845909 / 1125899906842624"
  by code_simp+

lemma axis_cases:
  assumes "x \<in> set (mgrid_axis 0 py_a py_s)"
  shows "x = 0 \<or> x = 6004799503160661 / 4503599627370496 \<or>
    x = 6004799503160661 / 2251799813685248 \<or> x = 4 \<or>
    x = 6004799503160661 / 1125899906842624 \<or> x = 3752999689475413 / 562949953421312"
  using assms unfolding axis_val by (simp only: list.set insert_iff empty_iff) blast

lemma shifted_off_grid:
  assumes "x \<in> set (mgrid_axis 0 py_a py_s)"
  shows "fadd x (6004799503160661 / 9007199254740992) \<notin> set (mgrid_axis 0 py_a py_s)"
  using axis_cases [OF assms] unfolding axis_val
  by (elim disjE; hypsubst; simp add: shifted_points)

lemma shifted_bounds:
  assumes "x \<in> set (mgrid_axis 0 py_a py_s)" "0 < x"
  shows "2 \<le> fadd x (6004799503160661 / 9007199254740992)"
  using axis_cases [OF assms(1)] assms(2)
  by (elim disjE; hypsubst; simp add: shifted_points)

lemma shifted_inj:
  assumes "x \<in> set (mgrid_axis 0 py_a py_s)" "y \<in> set (mgrid_axis 0 py_a py_s)"
    "fadd x (6004799503160661 / 9007199254740992) = fadd y (6004799503160661 / 9007199254740992)"
  shows "x = y"
  using axis_cases [OF assms(1)] axis_cases [OF assms(2)] assms(3)
  by (elim disjE; hypsubst; simp add: shifted_points)

lemma xyz_nth_row:
  assumes "r < length xyz"
  shows "\<exists>x y z. xyz ! r = [x, y, z] \<and> x \<in> set (mgrid_axis 0 py_a py_s) \<and>
    y \<in> set (mgrid_axis 0 py_a py_s) \<and> z \<in> set (mgrid_axis 0 py_a py_s)"
proof -
  from assms have "xyz ! r \<in> set xyz" by simp
  then show ?thesis by (simp only: xyz_row_iff)
qed

lemma shift_row:
  "map2 fadd [x, y, z] half_cell =
     [fadd x (6004799503160661 / 9007199254740992), fadd y (6004799503160661 / 9007199254740992),
      fadd z (6004799503160661 / 9007199254740992)]"
  by (simp add: half_cell_val)

lemma glass_rows:
  assumes "q \<in> set (xyz_p_glass u)"
  shows "\<exists>r < length xyz. q = xyz ! r \<and> 0 < xyz ! r ! 0 \<and> 0 < xyz ! r ! 1 \<and> 0 < xyz ! r ! 2"
proof -
  from assms glass_subset have "q \<in> set xyz" by blast
  then obtain r where r: "r < length xyz" "q = xyz ! r"
    by (auto simp: in_set_conv_nth)
  with assms show ?thesis
    by (auto simp: glass_mem)
qed

lemma plastic_rows:
  assumes "q \<in> set (xyz_p_plastic u)"
  shows "\<exists>r < length xyz. q = xyz ! r \<and> 0 < xyz ! r ! 0 \<and> 0 < xyz ! r ! 1 \<and> 0 < xyz ! r ! 2"
proof -
  from assms plastic_subset have "q \<in> set xyz" by blast
  then obtain r where r: "r < length xyz" "q = xyz ! r"
    by (auto simp: in_set_conv_nth)
  with assms show ?thesis
    by (auto simp: plastic_mem)
qed

lemma shifted_interior:
  assumes "r < length xyz" "0 < xyz ! r ! 0" "0 < xyz ! r ! 1" "0 < xyz ! r ! 2"
  shows "length (map2 fadd (xyz ! r) half_cell) = 3 \<and>
    (\<forall>x \<in> set (map2 fadd (xyz ! r) half_cell). 2 \<le> x) \<and>
    map2 fadd (xyz ! r) half_cell \<notin> set xyz \<and>
    hd (map2 fadd (xyz ! r) half_cell) \<notin> set (mgrid_axis 0 py_a py_s)"
proof -
  from xyz_nth_row [OF assms(1)] obtain x y z where
    row: "xyz ! r = [x, y, z]" and x: "x \<in> set (mgrid_axis 0 py_a py_s)"
    and y: "y \<in> set (mgrid_axis 0 py_a py_s)" and z: "z \<in> set (mgrid_axis 0 py_a py_s)"
    by blast
  from assms row have pos: "0 < x" "0 < y" "0 < z" by simp_all
  have off: "fadd x (6004799503160661 / 9007199254740992) \<notin> set (mgrid_axis 0 py_a py_s)"
    using x by (rule shifted_off_grid)
  then have "map2 fadd (xyz ! r) half_cell \<notin> set xyz"
    unfolding row shift_row by (simp only: xyz_row_iff) simp
  with off shifted_bounds [OF x pos(1)] shifted_bounds [OF y pos(2)] shifted_bounds [OF z pos(3)]
  show ?thesis
    unfolding row shift_row by simp
qed

lemma shift_inj_rows:
  assumes "r < length xyz" "r' < length xyz"
    "map2 fadd (xyz ! r) half_cell = map2 fadd (xyz ! r') half_cell"
  shows "xyz ! r = xyz ! r'"
proof -
  from xyz_nth_row [OF assms(1)] obtain x y z where
    row: "xyz ! r = [x, y, z]" and x: "x \<in> set (mgrid_axis 0 py_a py_s)"
    and y: "y \<in> set (mgrid_axis 0 py_a py_s)" and z: "z \<in> set (mgrid_axis 0 py_a py_s)"
    by blast
  from xyz_nth_row [OF assms(2)] obtain x' y' z' where
    row': "xyz ! r' = [x', y', z']" and x': "x' \<in> set (mgrid_axis 0 py_a py_s)"
    and y': "y' \<in> set (mgrid_axis 0 py_a py_s)" and z': "z' \<in> set (mgrid_axis 0 py_a py_s)"
    by blast
  from assms(3) have
    "fadd x (6004799503160661 / 9007199254740992) = fadd x' (6004799503160661 / 9007199254740992)"
    "fadd y (6004799503160661 / 9007199254740992) = fadd y' (6004799503160661 / 9007199254740992)"
    "fadd z (6004799503160661 / 9007199254740992) = fadd z' (6004799503160661 / 9007199254740992)"
    unfolding row row' shift_row by simp_all
  then have "x = x'" "y = y'" "z = z'"
    using x x' y y' z z' by (auto intro: shifted_inj)
  with row row' show ?thesis by simp
qed

lemma set_data_calls:
  assumes "c \<in> set (calls_of (script e optix))" "meth c = ''set_data''"
  shows "(kwarg c ''geom'' = Some (PyStr ''ParticleSet'') \<and>
      (kwarg c ''pos'' = Some (PyArray2 (add_row (xyz_p_glass (uniform e)) half_cell)) \<or>
       kwarg c ''pos'' = Some (PyArray2 (add_row (xyz_p_plastic (uniform e)) half_cell)))) \<or>
    (kwarg c ''geom'' = Some (PyStr ''Parallelepipeds'') \<and>
      (kwarg c ''pos'' = Some (PyArray2 (xyz_c_diffuse (uniform e))) \<or>
       kwarg c ''pos'' = Some (PyArray2 (xyz_c_mirror (uniform e)))))"
  using assms
  by (auto simp: script_def cell_defs optix_call_def calls_of_append kwarg_def cube_edges_def
      split: sum.splits)

lemma lit_order: "lit (4 / 10) \<le> lit (9 / 10)"
  by (simp only: lit_vals)

lemma xyz_index:
  assumes "q \<in> set xyz"
  shows "\<exists>r < length xyz. q = xyz ! r"
  using assms by (auto simp: in_set_conv_nth)

text \<open>
  Claim C9.  No row of \<open>xyz\<close> is in both \<open>xyz_p_glass\<close> and \<open>xyz_p_plastic\<close>.  A row
  whose three coordinates are positive and whose draw \<open>rnd[r]\<close> satisfies
  \<open>0.4 <= rnd[r] <= 0.9\<close> (the comparisons of Python, between doubles) is in neither,
  and no \<open>set_data\<close> call of any run passes it: the \<open>pos\<close> array of the call holds
  neither the row nor the row shifted by \<open>0.5*s\<close> along each axis.
\<close>

theorem uncovered_interior_points:
  "set (xyz_p_glass (uniform e)) \<inter> set (xyz_p_plastic (uniform e)) = {} \<and>
   (\<forall>r < length xyz.
      0 < xyz ! r ! 0 \<and> 0 < xyz ! r ! 1 \<and> 0 < xyz ! r ! 2 \<and>
      lit (4 / 10) \<le> rnd (uniform e) ! r \<and> rnd (uniform e) ! r \<le> lit (9 / 10) \<longrightarrow>
        xyz ! r \<notin> set (xyz_p_glass (uniform e)) \<and> xyz ! r \<notin> set (xyz_p_plastic (uniform e)) \<and>
        (\<forall>c \<in> set (issued W e w). meth c = ''set_data'' \<longrightarrow>
           (\<exists>P. kwarg c ''pos'' = Some (PyArray2 P) \<and> xyz ! r \<notin> set P \<and>
              map2 fadd (xyz ! r) half_cell \<notin> set P)))"
proof (intro conjI allI impI)
  show "set (xyz_p_glass (uniform e)) \<inter> set (xyz_p_plastic (uniform e)) = {}"
  proof (rule ccontr)
    assume "set (xyz_p_glass (uniform e)) \<inter> set (xyz_p_plastic (uniform e)) \<noteq> {}"
    then obtain q where g: "q \<in> set (xyz_p_glass (uniform e))"
      and p: "q \<in> set (xyz_p_plastic (uniform e))" by blast
    from g glass_subset have "q \<in> set xyz" by blast
    from xyz_index [OF this] obtain r where r: "r < length xyz" "q = xyz ! r" by blast
    from g p r have "uniform e r < lit (4 / 10)" "lit (9 / 10) < uniform e r"
      by (simp_all only: glass_mem plastic_mem)
    with lit_order show False by linarith
  qed
next
  fix r
  assume r: "r < length xyz"
    and h: "0 < xyz ! r ! 0 \<and> 0 < xyz ! r ! 1 \<and> 0 < xyz ! r ! 2 \<and>
      lit (4 / 10) \<le> rnd (uniform e) ! r \<and> rnd (uniform e) ! r \<le> lit (9 / 10)"
  from h r have lo: "lit (4 / 10) \<le> uniform e r" and hi: "uniform e r \<le> lit (9 / 10)"
    by (simp_all only: rnd_nth)
  from h have pos: "0 < xyz ! r ! 0" "0 < xyz ! r ! 1" "0 < xyz ! r ! 2" by simp_all
  show ng: "xyz ! r \<notin> set (xyz_p_glass (uniform e))"
    using lo by (simp only: glass_mem [OF r]) linarith
  show np: "xyz ! r \<notin> set (xyz_p_plastic (uniform e))"
    using hi by (simp only: plastic_mem [OF r]) linarith
  have nd: "xyz ! r \<notin> set (xyz_c_diffuse (uniform e))"
    using pos by (simp only: diffuse_mem [OF r]) linarith
  have nm: "xyz ! r \<notin> set (xyz_c_mirror (uniform e))"
    using pos by (simp only: mirror_mem [OF r]) linarith
  from shifted_interior [OF r pos] have off: "map2 fadd (xyz ! r) half_cell \<notin> set xyz"
    and hd_off: "hd (map2 fadd (xyz ! r) half_cell) \<notin> set (mgrid_axis 0 py_a py_s)" by simp_all
  have sd: "map2 fadd (xyz ! r) half_cell \<notin> set (xyz_c_diffuse (uniform e))"
    using off diffuse_subset by blast
  have sm: "map2 fadd (xyz ! r) half_cell \<notin> set (xyz_c_mirror (uniform e))"
    using off mirror_subset by blast
  have raw: "xyz ! r \<notin> set (add_row G half_cell)"
    if G: "\<And>q. q \<in> set G \<Longrightarrow>
      \<exists>r' < length xyz. q = xyz ! r' \<and> 0 < xyz ! r' ! 0 \<and> 0 < xyz ! r' ! 1 \<and> 0 < xyz ! r' ! 2" for G
  proof
    assume "xyz ! r \<in> set (add_row G half_cell)"
    then obtain q where q: "q \<in> set G" and eq: "xyz ! r = map2 fadd q half_cell"
      by (auto simp: add_row_def)
    from G [OF q] obtain r' where r': "r' < length xyz" "q = xyz ! r'"
      "0 < xyz ! r' ! 0" "0 < xyz ! r' ! 1" "0 < xyz ! r' ! 2" by blast
    from shifted_interior [OF r'(1) r'(3) r'(4) r'(5)] have "map2 fadd q half_cell \<notin> set xyz"
      using r'(2) by simp
    moreover from r have "xyz ! r \<in> set xyz" by (rule nth_mem)
    then have "map2 fadd q half_cell \<in> set xyz" by (simp only: eq)
    ultimately show False ..
  qed
  have shifted: "map2 fadd (xyz ! r) half_cell \<notin> set (add_row G half_cell)"
    if G: "set G \<subseteq> set xyz" and n: "xyz ! r \<notin> set G" for G
  proof
    assume "map2 fadd (xyz ! r) half_cell \<in> set (add_row G half_cell)"
    then obtain q where q: "q \<in> set G" and eq: "map2 fadd (xyz ! r) half_cell = map2 fadd q half_cell"
      by (auto simp: add_row_def)
    from q G have "q \<in> set xyz" by blast
    from xyz_index [OF this] obtain r' where r': "r' < length xyz" "q = xyz ! r'" by blast
    from shift_inj_rows [OF r r'(1)] eq r'(2) have "xyz ! r = q" by simp
    with q n show False by simp
  qed
  show "\<forall>c \<in> set (issued W e w). meth c = ''set_data'' \<longrightarrow>
           (\<exists>P. kwarg c ''pos'' = Some (PyArray2 P) \<and> xyz ! r \<notin> set P \<and>
              map2 fadd (xyz ! r) half_cell \<notin> set P)"
  proof (intro ballI impI)
    fix c
    assume c: "c \<in> set (issued W e w)" and m: "meth c = ''set_data''"
    from issued_subset [OF c] obtain optix where "c \<in> set (calls_of (script e optix))" ..
    from set_data_calls [OF this m] consider
      "kwarg c ''pos'' = Some (PyArray2 (add_row (xyz_p_glass (uniform e)) half_cell))" |
      "kwarg c ''pos'' = Some (PyArray2 (add_row (xyz_p_plastic (uniform e)) half_cell))" |
      "kwarg c ''pos'' = Some (PyArray2 (xyz_c_diffuse (uniform e)))" |
      "kwarg c ''pos'' = Some (PyArray2 (xyz_c_mirror (uniform e)))"
      by blast
    then show "\<exists>P. kwarg c ''pos'' = Some (PyArray2 P) \<and> xyz ! r \<notin> set P \<and>
              map2 fadd (xyz ! r) half_cell \<notin> set P"
    proof cases
      case 1
      with raw [of "xyz_p_glass (uniform e)"] shifted [OF glass_subset ng] glass_rows
      show ?thesis by blast
    next
      case 2
      with raw [of "xyz_p_plastic (uniform e)"] shifted [OF plastic_subset np] plastic_rows
      show ?thesis by blast
    next
      case 3
      with nd sd show ?thesis by blast
    next
      case 4
      with nm sm show ?thesis by blast
    qed
  qed
qed

lemma sample_particles_g:
  "hd (calls_of (cell_6 sample_env (Obj 0))) \<in> set (issued quiet_world sample_env 0)"
  "meth (hd (calls_of (cell_6 sample_env (Obj 0)))) = ''set_data''"
  "kwarg (hd (calls_of (cell_6 sample_env (Obj 0)))) ''geom'' = Some (PyStr ''ParticleSet'')"
  "kwarg (hd (calls_of (cell_6 sample_env (Obj 0)))) ''pos'' =
     Some (PyArray2 (add_row (xyz_p_glass (uniform sample_env)) half_cell))"
  by (simp_all add: issued_quiet script_def calls_of_append cell_6_def optix_call_def kwarg_def)

theorem uncovered_interior_points_witness:
  "(115 :: nat) < length xyz \<and>
   0 < xyz ! 115 ! 0 \<and> 0 < xyz ! 115 ! 1 \<and> 0 < xyz ! 115 ! 2 \<and>
   lit (4 / 10) \<le> rnd (uniform sample_env) ! 115 \<and> rnd (uniform sample_env) ! 115 \<le> lit (9 / 10) \<and>
   hd (calls_of (cell_6 sample_env (Obj 0))) \<in> set (issued quiet_world sample_env 0) \<and>
   meth (hd (calls_of (cell_6 sample_env (Obj 0)))) = ''set_data'' \<and>
   xyz ! 115 \<notin> set (xyz_p_glass (uniform sample_env)) \<and>
   xyz ! 115 \<notin> set (xyz_p_plastic (uniform sample_env)) \<and>
   (\<exists>P. kwarg (hd (calls_of (cell_6 sample_env (Obj 0)))) ''pos'' = Some (PyArray2 P) \<and>
      xyz ! 115 \<notin> set P \<and> map2 fadd (xyz ! 115) half_cell \<notin> set P)"
proof -
  have a: "(115 :: nat) < length xyz"
    by (simp add: xyz_length)
  have b: "0 < xyz ! 115 ! 0 \<and> 0 < xyz ! 115 ! 1 \<and> 0 < xyz ! 115 ! 2"
    by (simp add: xyz_samples)
  have c: "lit (4 / 10) \<le> rnd (uniform sample_env) ! 115 \<and>
      rnd (uniform sample_env) ! 115 \<le> lit (9 / 10)"
    by (simp only: lit_vals) (simp add: sample_rnd)
  from uncovered_interior_points [of sample_env quiet_world 0] a b c sample_particles_g(1,2)
  show ?thesis by blast
qed

lemma particle_rows:
  assumes G: "\<And>q. q \<in> set G \<Longrightarrow>
      \<exists>r < length xyz. q = xyz ! r \<and> 0 < xyz ! r ! 0 \<and> 0 < xyz ! r ! 1 \<and> 0 < xyz ! r ! 2"
    and p: "p \<in> set (add_row G half_cell)"
  shows "(\<exists>q \<in> set xyz. 0 < q ! 0 \<and> 0 < q ! 1 \<and> 0 < q ! 2 \<and> p = map2 fadd q half_cell) \<and>
    length p = 3 \<and> (\<forall>x \<in> set p. 2 \<le> x)"
proof -
  from p obtain q where q: "q \<in> set G" and eq: "p = map2 fadd q half_cell"
    by (auto simp: add_row_def)
  from G [OF q] obtain r where r: "r < length xyz" "q = xyz ! r"
    "0 < xyz ! r ! 0" "0 < xyz ! r ! 1" "0 < xyz ! r ! 2" by blast
  from r(1) have "xyz ! r \<in> set xyz" by (rule nth_mem)
  with r eq have "\<exists>q \<in> set xyz. 0 < q ! 0 \<and> 0 < q ! 1 \<and> 0 < q ! 2 \<and> p = map2 fadd q half_cell"
    by blast
  moreover from shifted_interior [OF r(1) r(3) r(4) r(5)] eq r(2)
  have "length p = 3 \<and> (\<forall>x \<in> set p. 2 \<le> x)" by simp
  ultimately show ?thesis by blast
qed

text \<open>
  Claim C10.  \<open>xyz\<close> has \<open>n^3 = 216\<close> rows of three coordinates, each coordinate one of
  \<open>0\<close>, \<open>s\<close>, \<open>2*s\<close>, \<open>3*s\<close>, \<open>4*s\<close>, \<open>5*s\<close> (the products of Python floats).
  Every position that a \<open>set_data\<close> call with \<open>geom="ParticleSet"\<close> passes is a row of
  \<open>xyz\<close> with positive coordinates shifted by \<open>0.5*s\<close> along each axis, and its three
  coordinates are at least \<open>1.5*s\<close> and positive.
\<close>

theorem grid_and_particle_positions:
  "length xyz = nat (py_n ^ 3) \<and> length xyz = 216 \<and>
   (\<forall>row \<in> set xyz. length row = 3 \<and>
      set row \<subseteq> set [0, py_s, fmul 2 py_s, fmul 3 py_s, fmul 4 py_s, fmul 5 py_s]) \<and>
   (\<forall>c \<in> set (issued W e w).
      meth c = ''set_data'' \<and> kwarg c ''geom'' = Some (PyStr ''ParticleSet'') \<longrightarrow>
        (\<exists>P. kwarg c ''pos'' = Some (PyArray2 P) \<and>
           (\<forall>p \<in> set P.
              (\<exists>q \<in> set xyz. 0 < q ! 0 \<and> 0 < q ! 1 \<and> 0 < q ! 2 \<and> p = map2 fadd q half_cell) \<and>
              length p = 3 \<and> (\<forall>x \<in> set p. fmul (lit (15 / 10)) py_s \<le> x \<and> 0 < x))))"
proof (intro conjI ballI impI)
  show "length xyz = nat (py_n ^ 3)"
    by (simp add: xyz_length py_n_def)
  show "length xyz = 216"
    by (rule xyz_length)
next
  fix row
  assume "row \<in> set xyz"
  then obtain x y z where "row = [x, y, z]" "x \<in> set (mgrid_axis 0 py_a py_s)"
    "y \<in> set (mgrid_axis 0 py_a py_s)" "z \<in> set (mgrid_axis 0 py_a py_s)"
    by (auto simp only: xyz_row_iff)
  then show "length row = 3" and
    "set row \<subseteq> set [0, py_s, fmul 2 py_s, fmul 3 py_s, fmul 4 py_s, fmul 5 py_s]"
    by (simp_all only: axis_multiples) simp_all
next
  fix c
  assume c: "c \<in> set (issued W e w)"
    and m: "meth c = ''set_data'' \<and> kwarg c ''geom'' = Some (PyStr ''ParticleSet'')"
  from issued_subset [OF c] obtain optix where "c \<in> set (calls_of (script e optix))" ..
  from set_data_calls [OF this] m consider
    "kwarg c ''pos'' = Some (PyArray2 (add_row (xyz_p_glass (uniform e)) half_cell))" |
    "kwarg c ''pos'' = Some (PyArray2 (add_row (xyz_p_plastic (uniform e)) half_cell))"
    by auto
  then obtain G where pos: "kwarg c ''pos'' = Some (PyArray2 (add_row G half_cell))"
    and G: "\<And>q. q \<in> set G \<Longrightarrow>
      \<exists>r < length xyz. q = xyz ! r \<and> 0 < xyz ! r ! 0 \<and> 0 < xyz ! r ! 1 \<and> 0 < xyz ! r ! 2"
  proof cases
    case 1
    with glass_rows that show ?thesis by blast
  next
    case 2
    with plastic_rows that show ?thesis by blast
  qed
  have low: "fmul (lit (15 / 10)) py_s = 2"
    by (rule low_val)
  have "(\<exists>q \<in> set xyz. 0 < q ! 0 \<and> 0 < q ! 1 \<and> 0 < q ! 2 \<and> p = map2 fadd q half_cell) \<and>
      length p = 3 \<and> (\<forall>x \<in> set p. fmul (lit (15 / 10)) py_s \<le> x \<and> 0 < x)"
    if "p \<in> set (add_row G half_cell)" for p
    unfolding low using particle_rows [OF G that] by fastforce
  with pos show "\<exists>P. kwarg c ''pos'' = Some (PyArray2 P) \<and>
           (\<forall>p \<in> set P.
              (\<exists>q \<in> set xyz. 0 < q ! 0 \<and> 0 < q ! 1 \<and> 0 < q ! 2 \<and> p = map2 fadd q half_cell) \<and>
              length p = 3 \<and> (\<forall>x \<in> set p. fmul (lit (15 / 10)) py_s \<le> x \<and> 0 < x))"
    by blast
qed

theorem grid_and_particle_positions_witness:
  "xyz ! 43 \<in> set xyz \<and>
   hd (calls_of (cell_6 sample_env (Obj 0))) \<in> set (issued quiet_world sample_env 0) \<and>
   meth (hd (calls_of (cell_6 sample_env (Obj 0)))) = ''set_data'' \<and>
   kwarg (hd (calls_of (cell_6 sample_env (Obj 0)))) ''geom'' = Some (PyStr ''ParticleSet'') \<and>
   kwarg (hd (calls_of (cell_6 sample_env (Obj 0)))) ''pos'' =
     Some (PyArray2 (add_row (xyz_p_glass (uniform sample_env)) half_cell)) \<and>
   map2 fadd (xyz ! 43) half_cell \<in> set (add_row (xyz_p_glass (uniform sample_env)) half_cell) \<and>
   length (xyz ! 43) = 3 \<and>
   length (map2 fadd (xyz ! 43) half_cell) = 3 \<and>
   fmul (lit (15 / 10)) py_s \<le> hd (map2 fadd (xyz ! 43) half_cell) \<and>
   0 < hd (map2 fadd (xyz ! 43) half_cell)"
proof -
  have r: "(43 :: nat) < length xyz"
    by (simp add: xyz_length)
  then have a: "xyz ! 43 \<in> set xyz"
    by (rule nth_mem)
  have "rnd (uniform sample_env) ! 43 < lit (4 / 10)"
    by (simp only: lit_vals) (simp add: sample_rnd)
  then have "uniform sample_env 43 < lit (4 / 10)"
    by (simp only: rnd_nth [OF r])
  moreover have "0 < xyz ! 43 ! 0 \<and> 0 < xyz ! 43 ! 1 \<and> 0 < xyz ! 43 ! 2"
    by (simp add: xyz_samples)
  ultimately have "xyz ! 43 \<in> set (xyz_p_glass (uniform sample_env))"
    by (simp only: glass_mem [OF r])
  then have b: "map2 fadd (xyz ! 43) half_cell \<in>
      set (add_row (xyz_p_glass (uniform sample_env)) half_cell)"
    by (simp add: add_row_def)
  have c: "map2 fadd (xyz ! 43) half_cell \<noteq> []"
    by (simp add: xyz_samples half_cell_val)
  then have d: "hd (map2 fadd (xyz ! 43) half_cell) \<in> set (map2 fadd (xyz ! 43) half_cell)"
    by (rule hd_in_set)
  from grid_and_particle_positions [of quiet_world sample_env 0]
  have rows: "\<forall>row \<in> set xyz. length row = 3 \<and>
      set row \<subseteq> set [0, py_s, fmul 2 py_s, fmul 3 py_s, fmul 4 py_s, fmul 5 py_s]"
    and calls: "\<forall>c \<in> set (issued quiet_world sample_env 0).
      meth c = ''set_data'' \<and> kwarg c ''geom'' = Some (PyStr ''ParticleSet'') \<longrightarrow>
        (\<exists>P. kwarg c ''pos'' = Some (PyArray2 P) \<and>
           (\<forall>p \<in> set P.
              (\<exists>q \<in> set xyz. 0 < q ! 0 \<and> 0 < q ! 1 \<and> 0 < q ! 2 \<and> p = map2 fadd q half_cell) \<and>
              length p = 3 \<and> (\<forall>x \<in> set p. fmul (lit (15 / 10)) py_s \<le> x \<and> 0 < x)))"
    by blast+
  from rows a have e: "length (xyz ! 43) = 3"
    by blast
  from calls sample_particles_g(1,2,3) obtain P where
    P: "kwarg (hd (calls_of (cell_6 sample_env (Obj 0)))) ''pos'' = Some (PyArray2 P)"
    and all: "\<forall>p \<in> set P. length p = 3 \<and> (\<forall>x \<in> set p. fmul (lit (15 / 10)) py_s \<le> x \<and> 0 < x)"
    by blast
  from P sample_particles_g(4) have "P = add_row (xyz_p_glass (uniform sample_env)) half_cell"
    by simp
  with all b have "length (map2 fadd (xyz ! 43) half_cell) = 3"
    and "\<forall>x \<in> set (map2 fadd (xyz ! 43) half_cell). fmul (lit (15 / 10)) py_s \<le> x \<and> 0 < x"
    by blast+
  with a b d e sample_particles_g show ?thesis
    by blast
qed


section \<open>Exceptions and determinism\<close>























end
